theory Spec2Isabelle
  imports Complex_Main "HOL-Library.AList" "HOL-Library.Sublist"
begin

section \<open>Strings and characters\<close>

text \<open>
  The tagger works on JavaScript strings. They are embedded as \<^typ>\<open>string\<close>, a
  \<^typ>\<open>char\<close> being read as a code unit below 256 (ASCII and Latin-1). On that range the
  built-ins used by the source are as follows: \<open>\s\<close> and \<open>trim\<close> recognise tab, line feed,
  vertical tab, form feed, carriage return, space and the no-break space; \<open>.\<close> matches
  everything but line feed and carriage return; \<open>toLowerCase\<close> moves \<open>A-Z\<close> and the
  accented capitals (192 to 222 without 215) up by 32.
\<close>

definition isSpace :: "char \<Rightarrow> bool" where
  "isSpace c = (c \<in> set [CHR 0x09, CHR 0x0A, CHR 0x0B, CHR 0x0C, CHR 0x0D, CHR 0x20, CHR 0xA0])"

definition isLineTerminator :: "char \<Rightarrow> bool" where
  "isLineTerminator c = (c = CHR 0x0A \<or> c = CHR 0x0D)"

text \<open>The character class \<open>[a-z0-9-]\<close>.\<close>

definition isSlugChar :: "char \<Rightarrow> bool" where
  "isSlugChar c =
     ((97 \<le> (of_char c :: nat) \<and> (of_char c :: nat) \<le> 122) \<or>
      (48 \<le> (of_char c :: nat) \<and> (of_char c :: nat) \<le> 57) \<or> c = CHR ''-'')"

definition lowerChar :: "char \<Rightarrow> char" where
  "lowerChar c =
     (let n = (of_char c :: nat) in
      if (65 \<le> n \<and> n \<le> 90) \<or> (192 \<le> n \<and> n \<le> 222 \<and> n \<noteq> 215)
      then char_of (n + 32) else c)"

definition toLowerCase :: "string \<Rightarrow> string" where
  "toLowerCase s = map lowerChar s"

definition trim :: "string \<Rightarrow> string" where
  "trim s = rev (dropWhile isSpace (rev (dropWhile isSpace s)))"

text \<open>
  \<open>s.replace(/X+/g, r)\<close> for a character class \<open>X\<close>: every maximal run of characters of
  the class becomes the single character \<open>r\<close>.
\<close>

function replaceRuns :: "(char \<Rightarrow> bool) \<Rightarrow> char \<Rightarrow> string \<Rightarrow> string" where
  "replaceRuns P r [] = []"
| "replaceRuns P r (c # cs) =
     (if P c then r # replaceRuns P r (dropWhile P cs) else c # replaceRuns P r cs)"
  by pat_completeness auto
termination
  by (relation "measure (\<lambda>(P, r, s). length s)")
     (auto simp: length_dropWhile_le less_Suc_eq_le)

text \<open>\<open>s.replace(/^-|-$/g, '')\<close>: one hyphen at the start and one at the end are removed.\<close>

definition stripEdgeHyphens :: "string \<Rightarrow> string" where
  "stripEdgeHyphens s =
     (let t = (case s of [] \<Rightarrow> [] | c # cs \<Rightarrow> if c = CHR ''-'' then cs else s)
      in if t \<noteq> [] \<and> last t = CHR ''-'' then butlast t else t)"

section \<open>Stopwords and slugs\<close>

definition STOPWORDS :: "string list" where
  "STOPWORDS =
   [''a'', ''an'', ''and'', ''are'', ''as'', ''at'', ''be'', ''but'', ''by'', ''can'',
    ''could'', ''did'', ''do'', ''does'', ''for'', ''from'', ''had'', ''has'', ''have'',
    ''how'', ''i'', ''if'', ''in'', ''into'', ''is'', ''it'', ''its'', ''just'',
    ''like'', ''may'', ''might'', ''more'', ''most'', ''not'', ''of'', ''on'', ''or'',
    ''our'', ''should'', ''so'', ''some'', ''such'', ''than'', ''that'', ''the'',
    ''their'', ''then'', ''there'', ''these'', ''this'', ''those'', ''to'', ''too'',
    ''up'', ''use'', ''using'', ''was'', ''we'', ''were'', ''what'', ''when'', ''where'',
    ''which'', ''who'', ''why'', ''will'', ''with'', ''you'', ''your'']"

text \<open>\<open>uniqueStable\<close>: the loop with its \<open>seen\<close> set and its \<open>out\<close> array.\<close>

fun uniqueStable_loop :: "string set \<Rightarrow> string list \<Rightarrow> string list \<Rightarrow> string list" where
  "uniqueStable_loop seen out [] = out"
| "uniqueStable_loop seen out (it # items) =
     (if it \<in> seen then uniqueStable_loop seen out items
      else uniqueStable_loop (insert it seen) (out @ [it]) items)"

definition uniqueStable :: "string list \<Rightarrow> string list" where
  "uniqueStable items = uniqueStable_loop {} [] items"

text \<open>
  \<open>slugifyHashtag\<close>, one binding for each call of the chain. \<open>None\<close> is the source's
  \<open>null\<close>.
\<close>

definition slugifyHashtag :: "string \<Rightarrow> string option" where
  "slugifyHashtag raw =
     (let s1 = toLowerCase raw;
          s2 = trim s1;
          s3 = dropWhile (\<lambda>c. c = CHR ''#'') s2;
          s4 = filter (\<lambda>c. c \<noteq> CHR 0x27 \<and> c \<noteq> CHR 0x22) s3;
          s5 = concat (map (\<lambda>c. if c = CHR ''&'' then '' and '' else [c]) s4);
          s6 = map (\<lambda>c. if isSlugChar c \<or> isSpace c then c else CHR '' '') s5;
          s7 = replaceRuns isSpace (CHR '' '') s6;
          s8 = trim s7;
          s9 = map (\<lambda>c. if isSpace c then CHR ''-'' else c) s8;
          s10 = replaceRuns (\<lambda>c. c = CHR ''-'') (CHR ''-'') s9;
          cleaned = stripEdgeHyphens s10
      in if cleaned = [] then None
         else if length cleaned < 2 then None
         else if cleaned \<in> set STOPWORDS then None
         else Some cleaned)"

text \<open>\<open>xs.map((s) => slugifyHashtag(s)).filter((s) => !!s)\<close>, which the source writes out four times.\<close>

definition slugifyAll :: "string list \<Rightarrow> string list" where
  "slugifyAll xs = concat (map (\<lambda>s. case slugifyHashtag s of None \<Rightarrow> [] | Some t \<Rightarrow> [t]) xs)"

text \<open>
  The slug grammar of the data model: lowercase letters, digits and hyphens only, no
  hyphen at either end, no two hyphens in a row, at least two characters, not a stopword.
\<close>

fun noRepeatedHyphen :: "string \<Rightarrow> bool" where
  "noRepeatedHyphen (a # b # cs) = (\<not> (a = CHR ''-'' \<and> b = CHR ''-'') \<and> noRepeatedHyphen (b # cs))"
| "noRepeatedHyphen cs = True"

definition isLabel :: "string \<Rightarrow> bool" where
  "isLabel s =
     (2 \<le> length s \<and> list_all isSlugChar s \<and> take 1 s \<noteq> ''-'' \<and>
      take 1 (rev s) \<noteq> ''-'' \<and> noRepeatedHyphen s \<and> s \<notin> set STOPWORDS)"

text \<open>The first step of \<open>/^-|-$/g\<close> on its own (used in the proofs).\<close>

definition dropLeadHyphen :: "string \<Rightarrow> string" where
  "dropLeadHyphen s = (case s of [] \<Rightarrow> [] | c # cs \<Rightarrow> if c = CHR ''-'' then cs else s)"

section \<open>Candidate extraction\<close>

text \<open>\<open>s.split(d)\<close> for a one-character separator: never empty, \<open>.split(d)\<close> is \<open>[]\<close>.\<close>

fun splitOn :: "char \<Rightarrow> string \<Rightarrow> string list" where
  "splitOn d [] = [[]]"
| "splitOn d (c # cs) =
     (if c = d then [] # splitOn d cs
      else (case splitOn d cs of [] \<Rightarrow> [[c]] | l # ls \<Rightarrow> (c # l) # ls))"

text \<open>
  The heading pattern \<open>/^(#{1,6})\s+(.+?)\s*$/\<close> on one line. \<open>lazyDot\<close> is
  \<open>(.+?)\s*$\<close>: the shortest non-empty run of characters other than line terminators
  after which only whitespace is left. \<open>backtrackSpaces\<close> is the greedy \<open>\s+\<close>: it
  first takes the whole run of \<open>j\<close> whitespace characters and gives them back one
  by one, down to one. The hashes are all the leading ones: the character after them must
  be whitespace, so no shorter count can match, and more than six never match.
\<close>

fun lazyDot :: "string \<Rightarrow> string \<Rightarrow> string option" where
  "lazyDot acc [] = None"
| "lazyDot acc (c # cs) =
     (if isLineTerminator c then None
      else if list_all isSpace cs then Some (acc @ [c])
      else lazyDot (acc @ [c]) cs)"

fun backtrackSpaces :: "nat \<Rightarrow> string \<Rightarrow> string option" where
  "backtrackSpaces 0 r = None"
| "backtrackSpaces (Suc j) r =
     (case lazyDot [] (drop (Suc j) r) of
        Some t \<Rightarrow> Some t
      | None \<Rightarrow> backtrackSpaces j r)"

definition headingMatch :: "string \<Rightarrow> string option" where
  "headingMatch line =
     (let k = length (takeWhile (\<lambda>c. c = CHR ''#'') line) in
      if 1 \<le> k \<and> k \<le> 6
      then (let r = drop k line in backtrackSpaces (length (takeWhile isSpace r)) r)
      else None)"

definition extractHeadings :: "string \<Rightarrow> string list" where
  "extractHeadings markdown =
     concat (map (\<lambda>line. case headingMatch line of None \<Rightarrow> [] | Some h \<Rightarrow> [h])
       (splitOn (CHR 0x0A) markdown))"

text \<open>
  \<open>stripCodeBlocks\<close>. \<open>findFence s\<close> is what follows the first three backticks in
  \<open>s\<close>. \<open>stripFenced\<close> is \<open>replace(/```[\s\S]*?```/g, ' ')\<close>: at an opening fence
  with a closing fence after it the whole block becomes one space and the scan goes on
  behind it; with no closing fence the character stays. \<open>stripInline\<close> is
  \<open>replace(/`[^`]*`/g, ' ')\<close>.
\<close>

fun findFence :: "string \<Rightarrow> string option" where
  "findFence [] = None"
| "findFence (c # cs) =
     (if take 3 (c # cs) = [CHR 0x60, CHR 0x60, CHR 0x60] then Some (drop 2 cs)
      else findFence cs)"

lemma findFence_length: "findFence s = Some r \<Longrightarrow> length r < length s"
  by (induction s) (auto split: if_splits)

function stripFenced :: "string \<Rightarrow> string" where
  "stripFenced [] = []"
| "stripFenced (c # cs) =
     (if take 3 (c # cs) = [CHR 0x60, CHR 0x60, CHR 0x60]
      then (case findFence (drop 2 cs) of
              Some rest \<Rightarrow> CHR '' '' # stripFenced rest
            | None \<Rightarrow> c # stripFenced cs)
      else c # stripFenced cs)"
  by pat_completeness auto
termination
proof (relation "measure length")
  fix c cs rest
  assume "findFence (drop 2 cs) = Some rest"
  then have "length rest < length (drop 2 cs)" by (rule findFence_length)
  then show "(rest, c # cs) \<in> measure length" by simp
qed simp_all

function stripInline :: "string \<Rightarrow> string" where
  "stripInline [] = []"
| "stripInline (c # cs) =
     (if c = CHR 0x60
      then (case dropWhile (\<lambda>x. x \<noteq> CHR 0x60) cs of
              [] \<Rightarrow> c # stripInline cs
            | q # rest \<Rightarrow> CHR '' '' # stripInline rest)
      else c # stripInline cs)"
  by pat_completeness auto
termination
proof (relation "measure length")
  fix c cs q rest
  assume "dropWhile (\<lambda>x. x \<noteq> CHR 0x60) cs = q # rest"
  then have "length (q # rest) \<le> length cs"
    using length_dropWhile_le[of "\<lambda>x. x \<noteq> CHR 0x60" cs] by simp
  then show "(rest, c # cs) \<in> measure length" by simp
qed simp_all

definition stripCodeBlocks :: "string \<Rightarrow> string" where
  "stripCodeBlocks markdown = stripInline (stripFenced markdown)"

text \<open>
  \<open>extractWords\<close>. \<open>matchUrl s\<close> is a match of \<open>/https?:\/\/\S+/\<close> at the start of
  \<open>s\<close>; it gives what is left of \<open>s\<close> after the match.
\<close>

definition matchUrl :: "string \<Rightarrow> string option" where
  "matchUrl s =
     (if take 4 s = ''http''
      then (let r = drop 4 s;
                r1 = (if take 1 r = ''s'' then drop 1 r else r) in
            if take 3 r1 = ''://''
            then (case drop 3 r1 of
                    [] \<Rightarrow> None
                  | x # xs \<Rightarrow> if isSpace x then None
                             else Some (dropWhile (\<lambda>c. \<not> isSpace c) xs))
            else None)
      else None)"

lemma matchUrl_length: "matchUrl s = Some r \<Longrightarrow> length r < length s"
proof -
  assume a: "matchUrl s = Some r"
  then obtain n x xs where d: "drop n s = x # xs" and r: "r = dropWhile (\<lambda>c. \<not> isSpace c) xs"
    by (simp add: matchUrl_def Let_def split: if_splits list.splits)
  have "length r \<le> length xs" unfolding r by (rule length_dropWhile_le)
  moreover have "length xs < length s"
    using arg_cong[OF d, of length] by simp
  ultimately show ?thesis by simp
qed

function stripUrls :: "string \<Rightarrow> string" where
  "stripUrls [] = []"
| "stripUrls (c # cs) =
     (case matchUrl (c # cs) of
        Some rest \<Rightarrow> CHR '' '' # stripUrls rest
      | None \<Rightarrow> c # stripUrls cs)"
  by pat_completeness auto
termination
  by (relation "measure length") (auto dest: matchUrl_length)

definition extractWords :: "string \<Rightarrow> string list" where
  "extractWords text =
     (let t1 = toLowerCase text;
          t2 = stripUrls t1;
          t3 = map (\<lambda>c. if isSlugChar c \<or> isSpace c then c else CHR '' '') t2;
          t4 = replaceRuns isSpace (CHR '' '') t3;
          t5 = trim t4
      in filter (\<lambda>w. w \<notin> set STOPWORDS)
           (filter (\<lambda>w. 3 \<le> length w) (splitOn (CHR '' '') t5)))"

text \<open>
  Numbers are finite JavaScript numbers (doubles), embedded as the rationals they denote.
  \<open>toIntegerOrInfinity\<close> truncates towards zero; \<open>sliceTo xs e\<close> is \<open>xs.slice(0, e)\<close>,
  where a negative end counts from the end of the array.
\<close>

definition toIntegerOrInfinity :: "rat \<Rightarrow> int" where
  "toIntegerOrInfinity r = (if r < 0 then - \<lfloor>- r\<rfloor> else \<lfloor>r\<rfloor>)"

definition sliceTo :: "'a list \<Rightarrow> rat \<Rightarrow> 'a list" where
  "sliceTo xs e =
     (let k = toIntegerOrInfinity e;
          n = int (length xs);
          fin = (if k < 0 then max (n + k) 0 else min k n)
      in take (nat fin) xs)"

text \<open>
  \<open>topKeywords\<close>: the \<open>Map\<close> of counts keeps its keys in the order of their first
  insertion; \<open>Array.prototype.sort\<close> is stable, so words of equal count stay in that
  order.
\<close>

fun countWords :: "(string \<times> nat) list \<Rightarrow> string list \<Rightarrow> (string \<times> nat) list" where
  "countWords counts [] = counts"
| "countWords counts (w # ws) =
     countWords
       (AList.update w ((case map_of counts w of None \<Rightarrow> 0 | Some n \<Rightarrow> n) + 1) counts) ws"

definition topKeywords :: "string \<Rightarrow> rat \<Rightarrow> string list" where
  "topKeywords text limit =
     map fst
       (sliceTo (sort_key (\<lambda>e. - int (snd e)) (countWords [] (extractWords text)))
          (max 0 limit))"

section \<open>Vocabulary mapping\<close>

text \<open>A \<open>Set\<close> of strings is the list of its elements in insertion order.\<close>

definition tokeniseSlug :: "string \<Rightarrow> string list" where
  "tokeniseSlug slug = uniqueStable (filter (\<lambda>t. t \<noteq> []) (splitOn (CHR ''-'') slug))"

record MapResult =
  mapped :: string
  score :: rat
  fromEntry :: "string option"

text \<open>
  \<open>inter / union\<close> is a division of doubles: the quotient of the two counts, rounded to
  the nearest double, a tie going to the even mantissa. For \<open>2 ^ e \<le> q < 2 ^ (e + 1)\<close>
  the doubles around \<open>q\<close> are the multiples of \<open>2 ^ (e - 52)\<close>. \<open>bitLength n\<close> is
  the number of binary digits of \<open>n\<close>, from which \<open>e\<close> is found: the quotient of a
  number of \<open>k\<close> digits by one of \<open>l\<close> digits lies between \<open>2 ^ (k - l - 1)\<close> and
  \<open>2 ^ (k - l + 1)\<close>. The ends of the exponent range are left out: counts of tokens are
  far from them. So \<open>1 / 5\<close> is \<open>3602879701896397 / 2 ^ 54\<close>, the double that the
  literal \<open>0.2\<close> denotes as well.
\<close>

fun bitLength :: "nat \<Rightarrow> nat" where
  "bitLength n = (if n = 0 then 0 else Suc (bitLength (n div 2)))"

declare bitLength.simps [simp del]

definition roundHalfEven :: "rat \<Rightarrow> int" where
  "roundHalfEven x =
     (let f = \<lfloor>x\<rfloor>; r = x - of_int f in
      if r < 1 / 2 then f else if 1 / 2 < r then f + 1 else if even f then f else f + 1)"

definition divDouble :: "nat \<Rightarrow> nat \<Rightarrow> rat" where
  "divDouble a b =
     (if a = 0 then 0
      else (let q = rat_of_nat a / rat_of_nat b;
                e0 = int (bitLength a) - int (bitLength b);
                e = (if q < 2 powi e0 then e0 - 1 else e0);
                ulp = 2 powi (e - 52)
            in rat_of_int (roundHalfEven (q / ulp)) * ulp))"

text \<open>\<open>mapToCache\<close> as the source types it, on an array of strings.\<close>

fun mapToCache_loop ::
  "string \<Rightarrow> string list \<Rightarrow> rat \<Rightarrow> string \<Rightarrow> rat \<Rightarrow> string list \<Rightarrow> MapResult" where
  "mapToCache_loop candidate candTokens threshold best bestScore [] =
     (if bestScore \<ge> threshold
      then \<lparr>mapped = best, score = bestScore, fromEntry = Some best\<rparr>
      else \<lparr>mapped = candidate, score = bestScore, fromEntry = None\<rparr>)"
| "mapToCache_loop candidate candTokens threshold best bestScore (existing # cache) =
     (if existing = candidate
      then \<lparr>mapped = existing, score = 1, fromEntry = Some existing\<rparr>
      else (let exTokens = tokeniseSlug existing in
            if length exTokens = 0
            then mapToCache_loop candidate candTokens threshold best bestScore cache
            else (let inter = length (filter (\<lambda>t. t \<in> set exTokens) candTokens);
                      union = int (length candTokens) + int (length exTokens) - int inter;
                      score = (if union = 0 then 0 else divDouble inter (nat union))
                  in if score > bestScore
                     then mapToCache_loop candidate candTokens threshold existing score cache
                     else mapToCache_loop candidate candTokens threshold best bestScore cache)))"

definition mapToCache :: "string \<Rightarrow> string list \<Rightarrow> rat \<Rightarrow> MapResult" where
  "mapToCache candidate cache threshold =
     (let candTokens = tokeniseSlug candidate in
      if length candTokens = 0
      then \<lparr>mapped = candidate, score = 0, fromEntry = None\<rparr>
      else mapToCache_loop candidate candTokens threshold candidate 0 cache)"

section \<open>Denylist\<close>

datatype DenylistMode = Exact | Glob

text \<open>
  \<open>globToRegExp\<close> escapes every regular-expression metacharacter but \<open>*\<close> and \<open>?\<close>,
  turns these into \<open>.*\<close> and \<open>.\<close>, and anchors the pattern at both ends. The
  expression it builds is therefore a sequence of literals (compared without case, the
  flag \<open>i\<close>), single wildcards and runs; \<open>regExpTest\<close> is \<open>re.test(x)\<close> for it.
\<close>

datatype GlobToken = Lit char | AnyChar | AnyRun

definition globToRegExp :: "string \<Rightarrow> GlobToken list" where
  "globToRegExp glob =
     map (\<lambda>c. if c = CHR ''*'' then AnyRun else if c = CHR ''?'' then AnyChar else Lit c) glob"

fun regExpTest :: "GlobToken list \<Rightarrow> string \<Rightarrow> bool" where
  "regExpTest [] s = (s = [])"
| "regExpTest (Lit c # ts) [] = False"
| "regExpTest (Lit c # ts) (x # xs) = (lowerChar x = lowerChar c \<and> regExpTest ts xs)"
| "regExpTest (AnyChar # ts) [] = False"
| "regExpTest (AnyChar # ts) (x # xs) = (\<not> isLineTerminator x \<and> regExpTest ts xs)"
| "regExpTest (AnyRun # ts) [] = regExpTest ts []"
| "regExpTest (AnyRun # ts) (x # xs) =
     (regExpTest ts (x # xs) \<or> (\<not> isLineTerminator x \<and> regExpTest (AnyRun # ts) xs))"

record DenyResult =
  kept :: "string list"
  denied :: "string list"

definition filterNewWithDenylist :: "string list \<Rightarrow> string list \<Rightarrow> DenylistMode \<Rightarrow> DenyResult" where
  "filterNewWithDenylist newItems denylist mode =
     (if length denylist = 0 then \<lparr>kept = newItems, denied = []\<rparr>
      else if mode = Exact
      then \<lparr>kept = filter (\<lambda>x. x \<notin> set denylist) newItems,
            denied = filter (\<lambda>x. x \<in> set denylist) newItems\<rparr>
      else (let patterns = map globToRegExp denylist in
            \<lparr>kept = filter (\<lambda>x. \<not> list_ex (\<lambda>re. regExpTest re x) patterns) newItems,
             denied = filter (\<lambda>x. list_ex (\<lambda>re. regExpTest re x) patterns) newItems\<rparr>))"

section \<open>Values, files and the libraries\<close>

text \<open>
  What \<open>JSON.parse\<close> and the front matter parser return. \<open>JInfinity\<close> stands for the
  two infinities (\<open>1e999\<close> parses to the positive one, \<open>True\<close>), which
  \<open>Number.isFinite\<close> refuses. An object is the list of its properties in insertion
  order; assigning a property (\<open>AList.update\<close>) keeps the place of a key that is there
  and appends a new one.
\<close>

datatype jsval =
    JNull
  | JBool bool
  | JNum rat
  | JInfinity bool
  | JStr string
  | JArr "jsval list"
  | JObj "(string \<times> jsval) list"

type_synonym UnknownRecord = "(string \<times> jsval) list"

text \<open>\<open>v.key\<close> on a parsed value: \<open>None\<close> is \<open>undefined\<close>.\<close>

definition getProp :: "jsval \<Rightarrow> string \<Rightarrow> jsval option" where
  "getProp v key = (case v of JObj kvs \<Rightarrow> map_of kvs key | _ \<Rightarrow> None)"

definition falsy :: "jsval \<Rightarrow> bool" where
  "falsy v = (v = JNull \<or> v = JBool False \<or> v = JNum 0 \<or> v = JStr [])"

fun isStringArray :: "jsval option \<Rightarrow> bool" where
  "isStringArray (Some (JArr vs)) = list_all (\<lambda>x. case x of JStr _ \<Rightarrow> True | _ \<Rightarrow> False) vs"
| "isStringArray _ = False"

text \<open>The strings of an array that \<open>isStringArray\<close> accepted.\<close>

fun strings :: "jsval option \<Rightarrow> string list" where
  "strings (Some (JArr vs)) = concat (map (\<lambda>x. case x of JStr s \<Rightarrow> [s] | _ \<Rightarrow> []) vs)"
| "strings _ = []"

text \<open>
  A path of the file system is absent, unreadable, or a file with its text. Reading an
  absent path fails with \<open>ENOENT\<close>, an unreadable one with another error. Whether a path
  can be written is a matter of its own (\<open>writable\<close> below).
\<close>

datatype fnode = NoEnt | Denied | File string

type_synonym fsys = "string \<Rightarrow> fnode"

datatype error =
    FailedToReadJson string
  | ConfigMin rat
  | ConfigMax rat
  | ReadFailed string
  | ParseFailed string
  | WriteFailed string
  | TypeError
  | NoFilesFound

record GrayMatterFile =
  data :: "UnknownRecord option"
  content :: string

text \<open>
  The libraries, the built-ins and the platform the source calls are parameters of the
  model: \<open>JSON.parse\<close> and \<open>matter\<close> (\<open>None\<close> when they throw),
  \<open>JSON.stringify(_, null, 2)\<close>, \<open>yaml.dump\<close> with the options of
  \<open>toYamlFrontmatter\<close>, \<open>path.basename\<close>, \<open>path.extname\<close>, \<open>path.posix.join\<close>,
  fast-glob, whether \<open>fs.mkdir\<close> and \<open>fs.writeFile\<close> succeed for a path (\<open>writable\<close>:
  permissions do not change during a run), sorting an array of strings with
  \<open>localeCompare\<close>, and the clock. \<open>sortMixed\<close> is the same sort on an array of two or
  more values of which one is not a string: the comparator \<open>a.localeCompare(b)\<close> throws a
  \<open>TypeError\<close> when it is called with such a value as \<open>a\<close>, and whether it is depends
  on the order in which the engine compares (\<open>None\<close> when it throws).

  \<open>matter L\<close> is the front matter parser in the state it is in. gray-matter keeps the
  results of its calls by input text; how a call changes that state is said where the
  calls are made (\<open>afterMatter\<close>, \<open>afterProcessFile\<close>). Console output is not modelled.
\<close>

record libs =
  JSON_parse :: "string \<Rightarrow> jsval option"
  JSON_stringify :: "jsval \<Rightarrow> string"
  matter :: "string \<Rightarrow> GrayMatterFile option"
  yaml_dump :: "UnknownRecord \<Rightarrow> string"
  basename :: "string \<Rightarrow> string \<Rightarrow> string"
  extname :: "string \<Rightarrow> string"
  posix_join :: "string \<Rightarrow> string \<Rightarrow> string"
  fg :: "string \<Rightarrow> string list"
  writable :: "string \<Rightarrow> bool"
  localeSort :: "string list \<Rightarrow> string list"
  sortMixed :: "jsval list \<Rightarrow> jsval list option"
  nowISO :: string

text \<open>
  \<open>fs.writeFile\<close>: it creates or replaces the file, or throws and leaves the file system
  as it was.
\<close>

definition writeFile :: "libs \<Rightarrow> fsys \<Rightarrow> string \<Rightarrow> string \<Rightarrow> error + fsys" where
  "writeFile L fs filePath text =
     (if writable L filePath then Inr (fs(filePath := File text))
      else Inl (WriteFailed filePath))"

definition toYamlFrontmatter :: "libs \<Rightarrow> UnknownRecord \<Rightarrow> string" where
  "toYamlFrontmatter L d = ''---'' @ [CHR 0x0A] @ yaml_dump L d @ ''---'' @ [CHR 0x0A]"

definition getTitleFromFrontmatter :: "UnknownRecord \<Rightarrow> string option" where
  "getTitleFromFrontmatter fm =
     (case map_of fm ''title'' of
        Some (JStr title) \<Rightarrow> if trim title \<noteq> [] then Some (trim title) else None
      | _ \<Rightarrow> None)"

text \<open>\<open>readJsonFile\<close>: \<open>Inr JNull\<close> is the \<open>null\<close> returned for an absent file.\<close>

definition readJsonFile :: "libs \<Rightarrow> fsys \<Rightarrow> string \<Rightarrow> error + jsval" where
  "readJsonFile L fs filePath =
     (case fs filePath of
        File raw \<Rightarrow>
          (case JSON_parse L raw of
             Some v \<Rightarrow> Inr v
           | None \<Rightarrow> Inl (FailedToReadJson filePath))
      | NoEnt \<Rightarrow> Inr JNull
      | Denied \<Rightarrow> Inl (FailedToReadJson filePath))"

definition writeJsonFile :: "libs \<Rightarrow> fsys \<Rightarrow> string \<Rightarrow> jsval \<Rightarrow> error + fsys" where
  "writeJsonFile L fs filePath d = writeFile L fs filePath (JSON_stringify L d @ [CHR 0x0A])"

text \<open>
  The state of gray-matter. \<open>matter(input)\<close> answers the empty text at once. For any other
  text it looks the text up in its cache; on a hit it returns a shallow copy of the entry
  (the \<open>data\<close> object is shared with the entry). On a miss it stores a new entry, whose
  \<open>data\<close> is empty and whose \<open>content\<close> is the whole text, and only then parses into
  that entry; when the parser throws, the entry stays as it was stored. So after a call
  whose parse failed, the same text is answered without an error, as a document with no
  metadata; after any other call the answer is the same again.
\<close>

definition withCached :: "libs \<Rightarrow> string \<Rightarrow> GrayMatterFile \<Rightarrow> libs" where
  "withCached L raw entry = L\<lparr>matter := (matter L)(raw := Some entry)\<rparr>"

definition afterMatter :: "libs \<Rightarrow> string \<Rightarrow> libs" where
  "afterMatter L raw =
     (if raw = [] then L
      else (case matter L raw of
              None \<Rightarrow> withCached L raw \<lparr>data = Some [], content = raw\<rparr>
            | Some parsed \<Rightarrow> L))"

text \<open>
  The cache file at run time. \<open>loadOrCreateCache\<close> checks that \<open>hashtags\<close> is an array,
  not that its entries are strings, and \<open>main\<close> hands the array on as it is. So the
  functions that receive it are given once more, on arrays of any values. An entry that
  is not a string is never \<open>===\<close> the candidate, and \<open>tokeniseSlug\<close> throws a
  \<open>TypeError\<close> on it (it has no \<open>split\<close>). On an array of strings the result is that
  of \<open>mapToCache\<close> (lemma \<open>mapToCache_untyped_strings\<close>).
\<close>

fun mapToCache_untyped_loop ::
  "string \<Rightarrow> string list \<Rightarrow> rat \<Rightarrow> string \<Rightarrow> rat \<Rightarrow> jsval list \<Rightarrow> error + MapResult" where
  "mapToCache_untyped_loop candidate candTokens threshold best bestScore [] =
     (if bestScore \<ge> threshold
      then Inr \<lparr>mapped = best, score = bestScore, fromEntry = Some best\<rparr>
      else Inr \<lparr>mapped = candidate, score = bestScore, fromEntry = None\<rparr>)"
| "mapToCache_untyped_loop candidate candTokens threshold best bestScore (JStr existing # cache) =
     (if existing = candidate
      then Inr \<lparr>mapped = existing, score = 1, fromEntry = Some existing\<rparr>
      else (let exTokens = tokeniseSlug existing in
            if length exTokens = 0
            then mapToCache_untyped_loop candidate candTokens threshold best bestScore cache
            else (let inter = length (filter (\<lambda>t. t \<in> set exTokens) candTokens);
                      union = int (length candTokens) + int (length exTokens) - int inter;
                      score = (if union = 0 then 0 else divDouble inter (nat union))
                  in if score > bestScore
                     then mapToCache_untyped_loop candidate candTokens threshold existing score cache
                     else mapToCache_untyped_loop candidate candTokens threshold best bestScore cache)))"
| "mapToCache_untyped_loop candidate candTokens threshold best bestScore (v # cache) = Inl TypeError"

definition mapToCache_untyped :: "string \<Rightarrow> jsval list \<Rightarrow> rat \<Rightarrow> error + MapResult" where
  "mapToCache_untyped candidate cache threshold =
     (let candTokens = tokeniseSlug candidate in
      if length candTokens = 0
      then Inr \<lparr>mapped = candidate, score = 0, fromEntry = None\<rparr>
      else mapToCache_untyped_loop candidate candTokens threshold candidate 0 cache)"

text \<open>
  \<open>xs.map(f)\<close> for an \<open>f\<close> that may throw: the first throw ends the map.
\<close>

fun mapAll :: "('a \<Rightarrow> error + 'b) \<Rightarrow> 'a list \<Rightarrow> error + 'b list" where
  "mapAll f [] = Inr []"
| "mapAll f (x # xs) =
     (case f x of
        Inl e \<Rightarrow> Inl e
      | Inr y \<Rightarrow> (case mapAll f xs of Inl e \<Rightarrow> Inl e | Inr ys \<Rightarrow> Inr (y # ys)))"

text \<open>
  \<open>uniqueStable\<close> on such an array. A \<open>Set\<close> compares with SameValueZero: numbers,
  strings, booleans and \<open>null\<close> by value, objects and arrays by identity, and the objects
  and arrays that \<open>JSON.parse\<close> returns are all different from one another.
\<close>

fun sameValueZero :: "jsval \<Rightarrow> jsval \<Rightarrow> bool" where
  "sameValueZero (JArr a) y = False"
| "sameValueZero (JObj a) y = False"
| "sameValueZero x y = (x = y)"

fun uniqueStable_untyped_loop :: "jsval list \<Rightarrow> jsval list \<Rightarrow> jsval list \<Rightarrow> jsval list" where
  "uniqueStable_untyped_loop seen out [] = out"
| "uniqueStable_untyped_loop seen out (it # items) =
     (if list_ex (sameValueZero it) seen then uniqueStable_untyped_loop seen out items
      else uniqueStable_untyped_loop (seen @ [it]) (out @ [it]) items)"

definition uniqueStable_untyped :: "jsval list \<Rightarrow> jsval list" where
  "uniqueStable_untyped items = uniqueStable_untyped_loop [] [] items"

definition isString :: "jsval \<Rightarrow> bool" where
  "isString v = (case v of JStr s \<Rightarrow> True | _ \<Rightarrow> False)"

text \<open>
  \<open>uniqueStable([...cacheHashtags, ...newlyAddedToCache]).sort((a, b) => a.localeCompare(b))\<close>,
  \<open>None\<close> when the sort throws. Sorting less than two values compares nothing.
\<close>

definition mergedCacheOf :: "libs \<Rightarrow> jsval list \<Rightarrow> string list \<Rightarrow> jsval list option" where
  "mergedCacheOf L cacheHashtags newlyAddedToCache =
     (let u = uniqueStable_untyped (cacheHashtags @ map JStr newlyAddedToCache) in
      if list_all isString u then Some (map JStr (localeSort L (strings (Some (JArr u)))))
      else if length u < 2 then Some u
      else sortMixed L u)"

section \<open>Configuration\<close>

record RequiredTaggerConfig =
  contentDir :: string
  contentGlob :: "string option"
  min_cfg :: rat
  max_cfg :: rat
  denylist :: "string list"
  denylistMode :: DenylistMode
  cacheFile :: string
  cacheSimilarityThreshold :: rat
  verboseRemapLimit :: rat
  warningSuggestionLimit :: rat
  candidateLimit :: rat
  keywordLimit :: rat
  extraWordScanLimit :: rat

record CliConfig =
  configFile :: string
  singleFile :: "string option"
  dryRun :: bool
  write_cfg :: bool
  verbose :: bool
  cacheRebuild :: bool

definition clampNumber :: "rat \<Rightarrow> rat \<Rightarrow> rat \<Rightarrow> rat" where
  "clampNumber v lo hi = max lo (min hi v)"

text \<open>
  \<open>DEFAULTS\<close>. The literal \<open>0.6\<close> is the double \<open>5404319552844595 / 2 ^ 53\<close>.
\<close>

definition defaults :: RequiredTaggerConfig where
  "defaults =
     \<lparr>contentDir = ''src/content/blog'',
      contentGlob = None,
      min_cfg = 3,
      max_cfg = 12,
      denylist = [],
      denylistMode = Exact,
      cacheFile = ''src/scripts/tagger/.hashtags-cache.json'',
      cacheSimilarityThreshold = 5404319552844595 / 9007199254740992,
      verboseRemapLimit = 25,
      warningSuggestionLimit = 10,
      candidateLimit = 500,
      keywordLimit = 30,
      extraWordScanLimit = 300\<rparr>"

text \<open>
  The two tests that \<open>loadConfig\<close> repeats for its options:
  \<open>typeof v === 'string' && v.trim() ? v.trim() : d\<close> and
  \<open>typeof v === 'number' && Number.isFinite(v) ? v : d\<close>.
\<close>

definition trimmedOr :: "jsval option \<Rightarrow> 'a \<Rightarrow> (string \<Rightarrow> 'a) \<Rightarrow> 'a" where
  "trimmedOr v d f =
     (case v of Some (JStr s) \<Rightarrow> if trim s \<noteq> [] then f (trim s) else d | _ \<Rightarrow> d)"

definition finiteOr :: "jsval option \<Rightarrow> rat \<Rightarrow> rat" where
  "finiteOr v d = (case v of Some (JNum n) \<Rightarrow> n | _ \<Rightarrow> d)"

definition loadConfig :: "libs \<Rightarrow> fsys \<Rightarrow> string \<Rightarrow> error + RequiredTaggerConfig" where
  "loadConfig L fs cfgPath =
     (case readJsonFile L fs cfgPath of
        Inl e \<Rightarrow> Inl e
      | Inr raw \<Rightarrow>
          if falsy raw then Inr defaults
          else
            (let contentDir' = trimmedOr (getProp raw ''contentDir'') (contentDir defaults) (\<lambda>s. s);
                 contentGlob' = trimmedOr (getProp raw ''contentGlob'') (contentGlob defaults) Some;
                 denylist' =
                   (if isStringArray (getProp raw ''denylist'')
                    then slugifyAll (strings (getProp raw ''denylist''))
                    else []);
                 denylistMode' =
                   (if getProp raw ''denylistMode'' = Some (JStr ''glob'') then Glob
                    else if getProp raw ''denylistMode'' = Some (JStr ''exact'') then Exact
                    else denylistMode defaults);
                 min' = finiteOr (getProp raw ''min'') (min_cfg defaults);
                 max' = finiteOr (getProp raw ''max'') (max_cfg defaults);
                 cacheFile' = trimmedOr (getProp raw ''cacheFile'') (cacheFile defaults) (\<lambda>s. s);
                 cacheSimilarityThreshold' =
                   (case getProp raw ''cacheSimilarityThreshold'' of
                      Some (JNum n) \<Rightarrow> clampNumber n 0 1
                    | _ \<Rightarrow> cacheSimilarityThreshold defaults);
                 verboseRemapLimit' =
                   finiteOr (getProp raw ''verboseRemapLimit'') (verboseRemapLimit defaults);
                 warningSuggestionLimit' =
                   finiteOr (getProp raw ''warningSuggestionLimit'') (warningSuggestionLimit defaults);
                 candidateLimit' = finiteOr (getProp raw ''candidateLimit'') (candidateLimit defaults);
                 keywordLimit' = finiteOr (getProp raw ''keywordLimit'') (keywordLimit defaults);
                 extraWordScanLimit' =
                   finiteOr (getProp raw ''extraWordScanLimit'') (extraWordScanLimit defaults)
             in if min' < 1 then Inl (ConfigMin min')
                else if max' < min' then Inl (ConfigMax max')
                else Inr
                  \<lparr>contentDir = contentDir',
                   contentGlob = contentGlob',
                   min_cfg = min',
                   max_cfg = max',
                   denylist = denylist',
                   denylistMode = denylistMode',
                   cacheFile = cacheFile',
                   cacheSimilarityThreshold = cacheSimilarityThreshold',
                   verboseRemapLimit = verboseRemapLimit',
                   warningSuggestionLimit = warningSuggestionLimit',
                   candidateLimit = candidateLimit',
                   keywordLimit = keywordLimit',
                   extraWordScanLimit = extraWordScanLimit'\<rparr>))"

text \<open>\<open>resolveFiles\<close>: an empty string is falsy, as \<open>null\<close> is.\<close>

definition resolveFiles :: "libs \<Rightarrow> CliConfig \<Rightarrow> RequiredTaggerConfig \<Rightarrow> string list" where
  "resolveFiles L cfg conf =
     (case singleFile cfg of
        Some (c # cs) \<Rightarrow> [c # cs]
      | _ \<Rightarrow>
          (case contentGlob conf of
             Some (g # gs) \<Rightarrow> fg L (g # gs)
           | _ \<Rightarrow>
               fg L (posix_join L
                 (map (\<lambda>c. if c = CHR 0x5C then CHR ''/'' else c) (contentDir conf))
                 ''**/*.md'')))"

section \<open>The vocabulary cache\<close>

text \<open>
  \<open>scanExistingHashtags\<close>: a file that cannot be read or parsed is reported and skipped.
  The calls of \<open>matter\<close> change the state of the parser on the way (\<open>afterScan\<close>), but
  not what the scan finds: a text is answered differently from before only when its parse
  has failed, and then the answer has no hashtags.
\<close>

definition scanExistingHashtags :: "libs \<Rightarrow> fsys \<Rightarrow> string list \<Rightarrow> string list" where
  "scanExistingHashtags L fs files =
     localeSort L (uniqueStable (concat (map
       (\<lambda>f. case fs f of
               File raw \<Rightarrow>
                 (case matter L raw of
                    None \<Rightarrow> []
                  | Some parsed \<Rightarrow>
                      (let fm = (case data parsed of None \<Rightarrow> [] | Some d \<Rightarrow> d);
                           hs = map_of fm ''hashtags''
                       in if isStringArray hs then slugifyAll (strings hs) else []))
             | _ \<Rightarrow> [])
       files)))"

text \<open>
  The object \<open>{ version: 1, updatedAt: new Date().toISOString(), hashtags }\<close> that
  \<open>buildCache\<close> and \<open>main\<close> build.
\<close>

definition cacheFileOf :: "libs \<Rightarrow> jsval list \<Rightarrow> jsval" where
  "cacheFileOf L hashtags =
     JObj [(''version'', JNum 1), (''updatedAt'', JStr (nowISO L)), (''hashtags'', JArr hashtags)]"

definition afterScan :: "libs \<Rightarrow> fsys \<Rightarrow> string list \<Rightarrow> libs" where
  "afterScan L fs files =
     foldl (\<lambda>L' f. case fs f of File raw \<Rightarrow> afterMatter L' raw | _ \<Rightarrow> L') L files"

text \<open>
  A \<open>CacheFile\<close> is the parsed JSON value itself, as \<open>readJsonFile\<close> hands it on.
  \<open>buildCache\<close> and \<open>loadOrCreateCache\<close> return it with the file system and the state
  of the parser they leave behind.
\<close>

definition buildCache ::
  "libs \<Rightarrow> string list \<Rightarrow> string \<Rightarrow> bool \<Rightarrow> bool \<Rightarrow> fsys
     \<Rightarrow> (error + jsval) \<times> fsys \<times> libs" where
  "buildCache L files cacheFilePath dry verb fs =
     (let hashtags = scanExistingHashtags L fs files;
          L' = afterScan L fs files;
          cache = cacheFileOf L (map JStr hashtags)
      in if \<not> dry
         then (case writeJsonFile L fs cacheFilePath cache of
                 Inl e \<Rightarrow> (Inl e, fs, L')
               | Inr fs' \<Rightarrow> (Inr cache, fs', L'))
         else (Inr cache, fs, L'))"

text \<open>\<open>existing?.version === 1 && Array.isArray(existing.hashtags)\<close>.\<close>

definition cacheShape :: "jsval \<Rightarrow> bool" where
  "cacheShape existing =
     (getProp existing ''version'' = Some (JNum 1) \<and>
      (case getProp existing ''hashtags'' of Some (JArr hs) \<Rightarrow> True | _ \<Rightarrow> False))"

definition loadOrCreateCache ::
  "libs \<Rightarrow> string list \<Rightarrow> string \<Rightarrow> bool \<Rightarrow> bool \<Rightarrow> fsys
     \<Rightarrow> (error + jsval) \<times> fsys \<times> libs" where
  "loadOrCreateCache L files cacheFilePath dry verb fs =
     (case readJsonFile L fs cacheFilePath of
        Inl e \<Rightarrow> (Inl e, fs, L)
      | Inr existing \<Rightarrow>
          if cacheShape existing then (Inr existing, fs, L)
          else buildCache L files cacheFilePath dry verb fs)"

section \<open>Processing one document\<close>

record Outcome =
  changed :: bool
  added :: "string list"
  final :: "string list"

text \<open>
  The stages of \<open>processFile\<close>, in the order of the source. \<open>cacheHashtags\<close> is the
  array of the cache file as it is; \<open>mappedNewOf\<close> is an error when \<open>mapToCache\<close> throws
  for one of the candidates.
\<close>

definition frontmatterOf :: "GrayMatterFile \<Rightarrow> UnknownRecord" where
  "frontmatterOf parsed = (case data parsed of None \<Rightarrow> [] | Some d \<Rightarrow> d)"

definition existingHashtagsOf :: "UnknownRecord \<Rightarrow> string list" where
  "existingHashtagsOf fm =
     (if isStringArray (map_of fm ''hashtags'')
      then uniqueStable (slugifyAll (strings (map_of fm ''hashtags'')))
      else [])"

definition rawCandidatesOf ::
  "libs \<Rightarrow> string \<Rightarrow> RequiredTaggerConfig \<Rightarrow> GrayMatterFile \<Rightarrow> string list" where
  "rawCandidatesOf L filePath conf parsed =
     (let fm = frontmatterOf parsed;
          title = (case getTitleFromFrontmatter fm of
                     Some t \<Rightarrow> t
                   | None \<Rightarrow> basename L filePath (extname L filePath));
          headings = extractHeadings (content parsed);
          tags = map_of fm ''tags'';
          tagCandidates = (if isStringArray tags then strings tags else []);
          bodyNoCode = stripCodeBlocks (content parsed);
          keywordCandidates = topKeywords bodyNoCode (keywordLimit conf)
      in sliceTo (uniqueStable ([title] @ headings @ tagCandidates @ keywordCandidates))
           (candidateLimit conf))"

definition generatedAllOf :: "string list \<Rightarrow> string list" where
  "generatedAllOf rawCandidates = uniqueStable (slugifyAll rawCandidates)"

definition mappedNewOf ::
  "RequiredTaggerConfig \<Rightarrow> jsval list \<Rightarrow> string list \<Rightarrow> error + string list" where
  "mappedNewOf conf cacheHashtags generatedAll =
     (let denyRes = filterNewWithDenylist generatedAll (denylist conf) (denylistMode conf);
          generated = kept denyRes
      in case mapAll (\<lambda>c. mapToCache_untyped c cacheHashtags (cacheSimilarityThreshold conf))
                generated of
           Inl e \<Rightarrow> Inl e
         | Inr mappedDetails \<Rightarrow> Inr (map mapped mappedDetails))"

definition combinedOf :: "RequiredTaggerConfig \<Rightarrow> string list \<Rightarrow> string list \<Rightarrow> string list" where
  "combinedOf conf existingHashtags mappedNew =
     sliceTo (uniqueStable (existingHashtags @ mappedNew)) (max_cfg conf)"

definition addedOf :: "string list \<Rightarrow> string list \<Rightarrow> string list" where
  "addedOf existingHashtags combined = filter (\<lambda>h. h \<notin> set existingHashtags) combined"

text \<open>
  The text that is written: the front matter with \<open>fm['hashtags'] = combined\<close>, dumped,
  then \<open>parsed.content.replace(/^\n+/, '')\<close> and a line feed.
\<close>

definition bodyOut :: "string \<Rightarrow> string" where
  "bodyOut body = dropWhile (\<lambda>c. c = CHR 0x0A) body @ [CHR 0x0A]"

definition newRawOf :: "libs \<Rightarrow> GrayMatterFile \<Rightarrow> string list \<Rightarrow> string" where
  "newRawOf L parsed combined =
     toYamlFrontmatter L
       (AList.update ''hashtags'' (JArr (map JStr combined)) (frontmatterOf parsed))
     @ bodyOut (content parsed)"

definition processFile ::
  "libs \<Rightarrow> string \<Rightarrow> CliConfig \<Rightarrow> RequiredTaggerConfig \<Rightarrow> jsval list \<Rightarrow> fsys
     \<Rightarrow> (error + Outcome) \<times> fsys" where
  "processFile L filePath cfg conf cacheHashtags fs =
     (case fs filePath of
        File raw \<Rightarrow>
          (case matter L raw of
             None \<Rightarrow> (Inl (ParseFailed filePath), fs)
           | Some parsed \<Rightarrow>
               (let existingHashtags = existingHashtagsOf (frontmatterOf parsed);
                    rawCandidates = rawCandidatesOf L filePath conf parsed;
                    generatedAll = generatedAllOf rawCandidates
                in case mappedNewOf conf cacheHashtags generatedAll of
                     Inl e \<Rightarrow> (Inl e, fs)
                   | Inr mappedNew \<Rightarrow>
                       (let combined = combinedOf conf existingHashtags mappedNew;
                            added' = addedOf existingHashtags combined
                        in if length added' = 0
                           then (Inr \<lparr>changed = False, added = [], final = combined\<rparr>, fs)
                           else (let newRaw = newRawOf L parsed combined in
                                 if newRaw = raw
                                 then (Inr \<lparr>changed = False, added = [], final = combined\<rparr>, fs)
                                 else if \<not> dryRun cfg
                                 then (case writeFile L fs filePath newRaw of
                                         Inl e \<Rightarrow> (Inl e, fs)
                                       | Inr fs' \<Rightarrow>
                                           (Inr \<lparr>changed = True, added = added',
                                                 final = combined\<rparr>, fs'))
                                 else (Inr \<lparr>changed = True, added = added',
                                            final = combined\<rparr>, fs)))))
      | _ \<Rightarrow> (Inl (ReadFailed filePath), fs))"

text \<open>
  What \<open>processFile\<close> does to the state of the parser. It calls \<open>matter\<close> on the text it
  has read. When labels are added, \<open>fm['hashtags'] = combined\<close> assigns into the \<open>data\<close>
  object of the parse result, which is the object of the cache entry: from then on the
  text that was read is answered with the final list in its metadata, whether the file
  is written or not. (\<open>parsed.data ?? {}\<close> is a fresh object when there is no \<open>data\<close>;
  the empty text is not cached.)
\<close>

definition afterProcessFile ::
  "libs \<Rightarrow> string \<Rightarrow> RequiredTaggerConfig \<Rightarrow> jsval list \<Rightarrow> fsys \<Rightarrow> libs" where
  "afterProcessFile L filePath conf cacheHashtags fs =
     (case fs filePath of
        File raw \<Rightarrow>
          (case matter L raw of
             None \<Rightarrow> afterMatter L raw
           | Some parsed \<Rightarrow>
               (case data parsed of
                  None \<Rightarrow> L
                | Some d \<Rightarrow>
                    (case mappedNewOf conf cacheHashtags
                            (generatedAllOf (rawCandidatesOf L filePath conf parsed)) of
                       Inl e \<Rightarrow> L
                     | Inr mappedNew \<Rightarrow>
                         (let existingHashtags = existingHashtagsOf d;
                              combined = combinedOf conf existingHashtags mappedNew
                          in if length (addedOf existingHashtags combined) = 0 \<or> raw = [] then L
                             else withCached L raw
                                    (parsed\<lparr>data :=
                                       Some (AList.update ''hashtags'' (JArr (map JStr combined)) d)\<rparr>)))))
      | _ \<Rightarrow> L)"

section \<open>The batch\<close>

record Summary =
  filesProcessed :: nat
  changedCount :: nat
  skippedCount :: nat

text \<open>
  The loop of \<open>main\<close> over the files: the state is the state of the parser, the file
  system, the two counters and \<open>newlyAddedToCache\<close>. A document that fails is reported
  and counted nowhere.
\<close>

fun processAll ::
  "CliConfig \<Rightarrow> RequiredTaggerConfig \<Rightarrow> jsval list \<Rightarrow> string list
     \<Rightarrow> libs \<times> fsys \<times> nat \<times> nat \<times> string list
     \<Rightarrow> libs \<times> fsys \<times> nat \<times> nat \<times> string list" where
  "processAll cfg conf cacheHashtags [] st = st"
| "processAll cfg conf cacheHashtags (f # files) (L, fs, nChanged, nSkipped, newly) =
     (case processFile L f cfg conf cacheHashtags fs of
        (Inr res, fs') \<Rightarrow>
          processAll cfg conf cacheHashtags files
            (afterProcessFile L f conf cacheHashtags fs,
             fs',
             (if changed res then nChanged + 1 else nChanged),
             (if changed res then nSkipped else nSkipped + 1),
             newly @ added res)
      | (Inl e, fs') \<Rightarrow>
          processAll cfg conf cacheHashtags files
            (afterProcessFile L f conf cacheHashtags fs, fs', nChanged, nSkipped, newly))"

text \<open>\<open>cache.hashtags\<close> of a value that \<open>loadOrCreateCache\<close> returned.\<close>

definition hashtagsOf :: "jsval \<Rightarrow> jsval list" where
  "hashtagsOf cache = (case getProp cache ''hashtags'' of Some (JArr vs) \<Rightarrow> vs | _ \<Rightarrow> [])"

text \<open>
  \<open>main\<close> after \<open>parseArgs\<close>. Nothing catches what \<open>loadConfig\<close>,
  \<open>loadOrCreateCache\<close>, \<open>buildCache\<close>, the sort of the merged cache and the last
  \<open>writeJsonFile\<close> throw: the run ends with that error.
\<close>

definition main :: "libs \<Rightarrow> CliConfig \<Rightarrow> fsys \<Rightarrow> (error + Summary) \<times> fsys" where
  "main L cfg fs =
     (case loadConfig L fs (configFile cfg) of
        Inl e \<Rightarrow> (Inl e, fs)
      | Inr conf \<Rightarrow>
          (let files = resolveFiles L cfg conf in
           if length files = 0 then (Inl NoFilesFound, fs)
           else if cacheRebuild cfg
           then (case buildCache L files (cacheFile conf) (dryRun cfg) (verbose cfg) fs of
                   (Inl e, fs', L') \<Rightarrow> (Inl e, fs')
                 | (Inr c, fs', L') \<Rightarrow>
                     (Inr \<lparr>filesProcessed = 0, changedCount = 0, skippedCount = 0\<rparr>, fs'))
           else
             (case loadOrCreateCache L files (cacheFile conf) (dryRun cfg) (verbose cfg) fs of
                (Inl e, fs1, L1) \<Rightarrow> (Inl e, fs1)
              | (Inr cache, fs1, L1) \<Rightarrow>
                  (let cacheHashtags = hashtagsOf cache;
                       (L2, fs2, nChanged, nSkipped, newlyAddedToCache) =
                          processAll cfg conf cacheHashtags files (L1, fs1, 0, 0, []);
                       done = \<lparr>filesProcessed = length files, changedCount = nChanged,
                               skippedCount = nSkipped\<rparr>
                   in case mergedCacheOf L cacheHashtags newlyAddedToCache of
                        None \<Rightarrow> (Inl TypeError, fs2)
                      | Some mergedCache \<Rightarrow>
                          if length mergedCache \<noteq> length cacheHashtags \<and> \<not> dryRun cfg
                          then (case writeJsonFile L fs2 (cacheFile conf)
                                       (cacheFileOf L mergedCache) of
                                  Inl e \<Rightarrow> (Inl e, fs2)
                                | Inr fs3 \<Rightarrow> (Inr done, fs3))
                          else (Inr done, fs2)))))"

text \<open>
  Libraries that know nothing: every parser fails, every printer prints nothing, no file
  is found, every path can be written. The concrete instances of the theorems below
  start from them and fill in what the instance needs.
\<close>

definition noLibs :: libs where
  "noLibs =
     \<lparr>JSON_parse = (\<lambda>s. None),
      JSON_stringify = (\<lambda>v. []),
      matter = (\<lambda>s. None),
      yaml_dump = (\<lambda>d. []),
      basename = (\<lambda>p ext. p),
      extname = (\<lambda>p. []),
      posix_join = (\<lambda>a b. a @ ''/'' @ b),
      fg = (\<lambda>pattern. []),
      writable = (\<lambda>p. True),
      localeSort = (\<lambda>xs. xs),
      sortMixed = (\<lambda>vs. None),
      nowISO = []\<rparr>"

text \<open>
  A running example: a post with a title, one hashtag and two sentences of body, a dumper
  that prints strings and lists of strings the way \<open>yaml.dump\<close> does, and a front matter
  parser that knows the post as it is read and as it is written back.
\<close>

definition sampleDump :: "UnknownRecord \<Rightarrow> string" where
  "sampleDump fm =
     concat (map
       (\<lambda>(k, v). k @ '':'' @
          (case v of
             JStr s \<Rightarrow> '' '' @ s @ [CHR 0x0A]
           | JArr vs \<Rightarrow>
               [CHR 0x0A] @
               concat (map (\<lambda>x. case x of JStr s \<Rightarrow> ''  - '' @ s @ [CHR 0x0A] | _ \<Rightarrow> []) vs)
           | _ \<Rightarrow> [CHR 0x0A]))
       fm)"

definition samplePost :: GrayMatterFile where
  "samplePost =
     \<lparr>data = Some [(''title'', JStr ''Intro to API Design''), (''hashtags'', JArr [JStr ''api''])],
      content = [CHR 0x0A] @ ''APIs are about contracts. APIs need versioning.'' @ [CHR 0x0A]\<rparr>"

definition samplePostWritten :: GrayMatterFile where
  "samplePostWritten =
     \<lparr>data = Some [(''title'', JStr ''Intro to API Design''),
                   (''hashtags'', JArr (map JStr [''api'', ''intro-to-api-design'', ''apis'',
                      ''about'', ''contracts'', ''need'', ''versioning'']))],
      content = ''APIs are about contracts. APIs need versioning.'' @ [CHR 0x0A, CHR 0x0A]\<rparr>"

definition textOf :: "GrayMatterFile \<Rightarrow> string" where
  "textOf parsed =
     ''---'' @ [CHR 0x0A] @ sampleDump (frontmatterOf parsed) @ ''---'' @ [CHR 0x0A] @ content parsed"

definition sampleLibs :: libs where
  "sampleLibs =
     noLibs
       \<lparr>matter := (\<lambda>s. if s = textOf samplePost then Some samplePost
                       else if s = textOf samplePostWritten then Some samplePostWritten
                       else None),
        yaml_dump := sampleDump\<rparr>"

definition sampleFiles :: fsys where
  "sampleFiles = (\<lambda>p. if p = ''post.md'' then File (textOf samplePost) else NoEnt)"

definition writeMode :: CliConfig where
  "writeMode =
     \<lparr>configFile = ''tagger.config.json'', singleFile = Some ''post.md'', dryRun = False,
      write_cfg = True, verbose = False, cacheRebuild = False\<rparr>"

text \<open>
  Libraries for other posts: the parser knows the texts of the posts it is given, in the
  state it is in before any call.
\<close>

definition libsOf :: "GrayMatterFile list \<Rightarrow> libs" where
  "libsOf posts =
     noLibs\<lparr>matter := (\<lambda>s. find (\<lambda>post. textOf post = s) posts), yaml_dump := sampleDump\<rparr>"

text \<open>
  A post whose four hashtags are not labels as they stand: one is not a slug, one is a
  stopword, one is there twice.
\<close>

definition untidyPost :: GrayMatterFile where
  "untidyPost =
     \<lparr>data = Some [(''title'', JStr ''Zed''),
                   (''hashtags'', JArr (map JStr [''API Design'', ''the'', ''api'', ''api'']))],
      content = []\<rparr>"

definition untidyPostWritten :: GrayMatterFile where
  "untidyPostWritten =
     \<lparr>data = Some [(''title'', JStr ''Zed''),
                   (''hashtags'', JArr (map JStr [''api-design'', ''api'', ''zed'']))],
      content = [CHR 0x0A]\<rparr>"

text \<open>A post whose one label is there twice.\<close>

definition twicePost :: GrayMatterFile where
  "twicePost =
     \<lparr>data = Some [(''title'', JStr ''Zed''), (''hashtags'', JArr [JStr ''api'', JStr ''api''])],
      content = []\<rparr>"

definition twicePostWritten :: GrayMatterFile where
  "twicePostWritten =
     \<lparr>data = Some [(''title'', JStr ''Zed''), (''hashtags'', JArr [JStr ''api'', JStr ''zed''])],
      content = [CHR 0x0A]\<rparr>"

text \<open>A post whose list of hashtags holds a number, as YAML reads \<open>- 2024\<close>.\<close>

definition yearPost :: GrayMatterFile where
  "yearPost =
     \<lparr>data = Some [(''title'', JStr ''Zed''), (''hashtags'', JArr [JStr ''api'', JNum 2024])],
      content = []\<rparr>"

definition yearPostWritten :: GrayMatterFile where
  "yearPostWritten =
     \<lparr>data = Some [(''title'', JStr ''Zed''), (''hashtags'', JArr [JStr ''zed''])],
      content = [CHR 0x0A]\<rparr>"




text \<open>The example with a cache file that is not JSON.\<close>

definition sampleBrokenCache :: fsys where
  "sampleBrokenCache = sampleFiles(cacheFile defaults := File ''{ hashtags: ['')"

text \<open>The example on a platform where nothing can be written.\<close>

definition lockedLibs :: libs where
  "lockedLibs = sampleLibs\<lparr>writable := (\<lambda>p. False)\<rparr>"

text \<open>
  The example with a cache file of the right shape whose one hashtag is a number, and
  the example with a second file of the same text.
\<close>

definition numberCacheText :: string where
  "numberCacheText =
     ''{ '' @ [CHR 0x22] @ ''version'' @ [CHR 0x22] @ '': 1, '' @
     [CHR 0x22] @ ''hashtags'' @ [CHR 0x22] @ '': [5] }''"

definition numberCacheLibs :: libs where
  "numberCacheLibs =
     sampleLibs\<lparr>JSON_parse :=
       (\<lambda>s. if s = numberCacheText
             then Some (JObj [(''version'', JNum 1), (''hashtags'', JArr [JNum 5])])
             else None)\<rparr>"

definition numberCacheFiles :: fsys where
  "numberCacheFiles = sampleFiles(cacheFile defaults := File numberCacheText)"

definition twinFiles :: fsys where
  "twinFiles = (\<lambda>p. if p = ''post.md'' \<or> p = ''twin.md'' then File (textOf samplePost) else NoEnt)"

section \<open>Properties\<close>

subsection \<open>Slug normalisation\<close>

lemma slug_not_space: "isSlugChar c \<Longrightarrow> \<not> isSpace c"
  by (auto simp: isSlugChar_def isSpace_def)

lemma slug_lower: "isSlugChar c \<Longrightarrow> lowerChar c = c"
  by (auto simp: isSlugChar_def lowerChar_def Let_def)

lemma slug_not_special:
  "isSlugChar c \<Longrightarrow> c \<noteq> CHR ''#'' \<and> c \<noteq> CHR 0x27 \<and> c \<noteq> CHR 0x22 \<and> c \<noteq> CHR ''&''"
  by (auto simp: isSlugChar_def)

lemma set_replaceRuns: "set (replaceRuns P r s) \<subseteq> insert r {c \<in> set s. \<not> P c}"
proof (induction P r s rule: replaceRuns.induct)
  case (1 P r)
  then show ?case by simp
next
  case (2 P r c cs)
  have "set (dropWhile P cs) \<subseteq> set cs"
    by (auto dest: set_dropWhileD)
  with 2 show ?case by (auto split: if_splits)
qed

lemma replaceRuns_id: "\<forall>c\<in>set s. \<not> P c \<Longrightarrow> replaceRuns P r s = s"
  by (induction s) auto

lemma replaceRuns_head:
  "s \<noteq> [] \<Longrightarrow> \<not> P (hd s) \<Longrightarrow> replaceRuns P r s = hd s # replaceRuns P r (tl s)"
  by (cases s) auto

lemma noRepeatedHyphen_Cons:
  "noRepeatedHyphen (a # s) =
     ((s = [] \<or> \<not> (a = CHR ''-'' \<and> hd s = CHR ''-'')) \<and> noRepeatedHyphen s)"
  by (cases s) auto

lemma noRepeatedHyphen_nth:
  "noRepeatedHyphen s =
     (\<forall>i. Suc i < length s \<longrightarrow> \<not> (s ! i = CHR ''-'' \<and> s ! Suc i = CHR ''-''))"
proof (induction s rule: noRepeatedHyphen.induct)
  case (1 a b cs)
  show ?case
  proof
    assume h: "noRepeatedHyphen (a # b # cs)"
    show "\<forall>i. Suc i < length (a # b # cs) \<longrightarrow>
            \<not> ((a # b # cs) ! i = CHR ''-'' \<and> (a # b # cs) ! Suc i = CHR ''-'')"
    proof (intro allI impI)
      fix i assume "Suc i < length (a # b # cs)"
      with h 1 show "\<not> ((a # b # cs) ! i = CHR ''-'' \<and> (a # b # cs) ! Suc i = CHR ''-'')"
        by (cases i) auto
    qed
  next
    assume h: "\<forall>i. Suc i < length (a # b # cs) \<longrightarrow>
            \<not> ((a # b # cs) ! i = CHR ''-'' \<and> (a # b # cs) ! Suc i = CHR ''-'')"
    from h[rule_format, of 0] have a: "\<not> (a = CHR ''-'' \<and> b = CHR ''-'')" by simp
    have "\<forall>i. Suc i < length (b # cs) \<longrightarrow>
            \<not> ((b # cs) ! i = CHR ''-'' \<and> (b # cs) ! Suc i = CHR ''-'')"
    proof (intro allI impI)
      fix i assume "Suc i < length (b # cs)"
      with h[rule_format, of "Suc i"]
      show "\<not> ((b # cs) ! i = CHR ''-'' \<and> (b # cs) ! Suc i = CHR ''-'')" by simp
    qed
    with 1 a show "noRepeatedHyphen (a # b # cs)" by simp
  qed
qed simp_all

lemma noRepeatedHyphen_replaceRuns:
  "noRepeatedHyphen (replaceRuns (\<lambda>c. c = CHR ''-'') (CHR ''-'') s)"
proof (induction "\<lambda>c. c = CHR ''-''" "CHR ''-''" s rule: replaceRuns.induct)
  case 1
  then show ?case by simp
next
  case (2 c cs)
  show ?case
  proof (cases "c = CHR ''-''")
    case True
    let ?d = "dropWhile (\<lambda>c. c = CHR ''-'') cs"
    have ih: "noRepeatedHyphen (replaceRuns (\<lambda>c. c = CHR ''-'') (CHR ''-'') ?d)"
      using 2 True by simp
    have eq: "replaceRuns (\<lambda>c. c = CHR ''-'') (CHR ''-'') (c # cs) =
        CHR ''-'' # replaceRuns (\<lambda>c. c = CHR ''-'') (CHR ''-'') ?d"
      using True by simp
    have "noRepeatedHyphen (CHR ''-'' # replaceRuns (\<lambda>c. c = CHR ''-'') (CHR ''-'') ?d)"
    proof (cases ?d)
      case Nil
      then show ?thesis by (simp only: replaceRuns.simps noRepeatedHyphen.simps)
    next
      case (Cons x xs)
      then have "x \<noteq> CHR ''-''"
        using hd_dropWhile[of "\<lambda>c. c = CHR ''-''" cs] by auto
      with Cons ih show ?thesis
        by (simp only: noRepeatedHyphen_Cons) simp
    qed
    with eq show ?thesis by (simp only:)
  next
    case False
    with 2 show ?thesis by (simp add: noRepeatedHyphen_Cons)
  qed
qed

lemma replaceRuns_hyphen_id:
  "noRepeatedHyphen s \<Longrightarrow> replaceRuns (\<lambda>c. c = CHR ''-'') (CHR ''-'') s = s"
proof (induction s rule: noRepeatedHyphen.induct)
  case (1 a b cs)
  then show ?case by (cases "a = CHR ''-''") auto
qed simp_all

lemma trim_id: "s \<noteq> [] \<Longrightarrow> \<not> isSpace (hd s) \<Longrightarrow> \<not> isSpace (last s) \<Longrightarrow> trim s = s"
proof -
  assume a: "s \<noteq> []" "\<not> isSpace (hd s)" "\<not> isSpace (last s)"
  then have "dropWhile isSpace s = s" by (cases s) auto
  moreover have "dropWhile isSpace (rev s) = rev s"
    using a by (cases "rev s") (auto simp: last_rev hd_rev)
  ultimately show ?thesis by (simp add: trim_def)
qed

lemma set_trim: "set (trim s) \<subseteq> set s"
  by (auto simp: trim_def dest!: set_dropWhileD)

lemma noRepeatedHyphen_tl: "noRepeatedHyphen s \<Longrightarrow> noRepeatedHyphen (tl s)"
  by (cases s) (auto simp: noRepeatedHyphen_Cons)

lemma noRepeatedHyphen_butlast: "noRepeatedHyphen s \<Longrightarrow> noRepeatedHyphen (butlast s)"
  unfolding noRepeatedHyphen_nth by (auto simp: nth_butlast)

lemma stripEdgeHyphens_alt:
  "stripEdgeHyphens s =
     (if dropLeadHyphen s \<noteq> [] \<and> last (dropLeadHyphen s) = CHR ''-''
      then butlast (dropLeadHyphen s) else dropLeadHyphen s)"
  by (simp add: stripEdgeHyphens_def dropLeadHyphen_def Let_def)

lemma dropLeadHyphen_props:
  assumes "noRepeatedHyphen s"
  shows "noRepeatedHyphen (dropLeadHyphen s)"
    and "dropLeadHyphen s = [] \<or> hd (dropLeadHyphen s) \<noteq> CHR ''-''"
    and "set (dropLeadHyphen s) \<subseteq> set s"
  using assms by (cases s; cases "tl s"; auto simp: dropLeadHyphen_def)+

lemma stripEdgeHyphens_props:
  assumes "noRepeatedHyphen s"
  shows "noRepeatedHyphen (stripEdgeHyphens s)"
    and "take 1 (stripEdgeHyphens s) \<noteq> ''-''"
    and "take 1 (rev (stripEdgeHyphens s)) \<noteq> ''-''"
    and "set (stripEdgeHyphens s) \<subseteq> set s"
proof -
  let ?t = "dropLeadHyphen s"
  note t = dropLeadHyphen_props[OF assms]
  show "noRepeatedHyphen (stripEdgeHyphens s)"
    using t(1) by (simp add: stripEdgeHyphens_alt noRepeatedHyphen_butlast)
  show "set (stripEdgeHyphens s) \<subseteq> set s"
    using t(3) by (auto simp: stripEdgeHyphens_alt dest: in_set_butlastD)
  show "take 1 (stripEdgeHyphens s) \<noteq> ''-''"
  proof (cases "?t \<noteq> [] \<and> last ?t = CHR ''-''")
    case True
    with t(2) have "hd ?t \<noteq> CHR ''-''" by simp
    with True obtain a b r where "?t = a # b # r" "a \<noteq> CHR ''-''"
      by (cases ?t; cases "tl ?t") auto
    with True show ?thesis by (simp add: stripEdgeHyphens_alt)
  next
    case False
    with t(2) show ?thesis by (cases ?t) (auto simp: stripEdgeHyphens_alt)
  qed
  show "take 1 (rev (stripEdgeHyphens s)) \<noteq> ''-''"
  proof (cases "?t \<noteq> [] \<and> last ?t = CHR ''-''")
    case True
    then obtain u where u: "?t = u @ [CHR ''-'']"
      by (metis append_butlast_last_id)
    have "u = [] \<or> last u \<noteq> CHR ''-''"
    proof (cases u rule: rev_cases)
      case Nil
      then show ?thesis by simp
    next
      case (snoc v x)
      have "Suc (length v) < length ?t" using u snoc by simp
      with t(1) have "\<not> (?t ! length v = CHR ''-'' \<and> ?t ! Suc (length v) = CHR ''-'')"
        unfolding noRepeatedHyphen_nth by blast
      with u snoc show ?thesis by (simp add: nth_append)
    qed
    moreover have "stripEdgeHyphens s = u"
      using True u by (simp add: stripEdgeHyphens_alt)
    ultimately show ?thesis by (cases u rule: rev_cases) auto
  next
    case False
    then show ?thesis by (cases ?t rule: rev_cases) (auto simp: stripEdgeHyphens_alt)
  qed
qed

lemma stripEdgeHyphens_id:
  "take 1 s \<noteq> ''-'' \<Longrightarrow> take 1 (rev s) \<noteq> ''-'' \<Longrightarrow> stripEdgeHyphens s = s"
proof -
  assume h: "take 1 s \<noteq> ''-''" and l: "take 1 (rev s) \<noteq> ''-''"
  from l have "s = [] \<or> last s \<noteq> CHR ''-''"
    by (cases s rule: rev_cases) auto
  moreover from h have "dropLeadHyphen s = s"
    by (cases s) (auto simp: dropLeadHyphen_def)
  ultimately show ?thesis
    by (auto simp: stripEdgeHyphens_alt)
qed

lemma concat_singletons: "\<forall>c\<in>set s. c \<noteq> x \<Longrightarrow> concat (map (\<lambda>c. if c = x then r else [c]) s) = s"
  by (induction s) auto

lemma slugifyHashtag_SomeD:
  "slugifyHashtag raw = Some s \<Longrightarrow>
     \<exists>t. s = stripEdgeHyphens (replaceRuns (\<lambda>c. c = CHR ''-'') (CHR ''-'') t) \<and>
         list_all isSlugChar t \<and> 2 \<le> length s \<and> s \<notin> set STOPWORDS"
proof -
  assume a: "slugifyHashtag raw = Some s"
  define s5 where "s5 = concat (map (\<lambda>c. if c = CHR ''&'' then '' and '' else [c])
        (filter (\<lambda>c. c \<noteq> CHR 0x27 \<and> c \<noteq> CHR 0x22)
          (dropWhile (\<lambda>c. c = CHR ''#'') (trim (toLowerCase raw)))))"
  define s6 where "s6 = map (\<lambda>c. if isSlugChar c \<or> isSpace c then c else CHR '' '') s5"
  define s8 where "s8 = trim (replaceRuns isSpace (CHR '' '') s6)"
  define s9 where "s9 = map (\<lambda>c. if isSpace c then CHR ''-'' else c) s8"
  have "\<forall>c\<in>set s6. isSlugChar c \<or> isSpace c"
    by (auto simp: s6_def isSpace_def)
  then have "\<forall>c\<in>set s8. isSlugChar c \<or> isSpace c"
    using set_replaceRuns[of isSpace "CHR '' ''" s6] set_trim[of "replaceRuns isSpace (CHR '' '') s6"]
    unfolding s8_def by (auto simp: isSpace_def)
  then have 9: "list_all isSlugChar s9"
    by (auto simp: s9_def list_all_iff isSlugChar_def)
  from a have "s = stripEdgeHyphens (replaceRuns (\<lambda>c. c = CHR ''-'') (CHR ''-'') s9)
      \<and> 2 \<le> length s \<and> s \<notin> set STOPWORDS"
    unfolding slugifyHashtag_def Let_def s9_def s8_def s6_def s5_def
    by (auto split: if_splits)
  with 9 show ?thesis by blast
qed

lemma slugifyHashtag_isLabel: "slugifyHashtag raw = Some s \<Longrightarrow> isLabel s"
proof -
  assume "slugifyHashtag raw = Some s"
  from slugifyHashtag_SomeD[OF this] obtain t where
    s: "s = stripEdgeHyphens (replaceRuns (\<lambda>c. c = CHR ''-'') (CHR ''-'') t)"
    and t: "list_all isSlugChar t" and l: "2 \<le> length s" "s \<notin> set STOPWORDS"
    by blast
  let ?u = "replaceRuns (\<lambda>c. c = CHR ''-'') (CHR ''-'') t"
  note p = stripEdgeHyphens_props[OF noRepeatedHyphen_replaceRuns[of t]]
  have "set ?u \<subseteq> insert (CHR ''-'') (set t)"
    using set_replaceRuns[of "\<lambda>c. c = CHR ''-''" "CHR ''-''" t] by auto
  with t p(4) have "list_all isSlugChar s"
    unfolding s list_all_iff by (auto simp: isSlugChar_def)
  with p(1,2,3) l show ?thesis
    unfolding isLabel_def s by simp
qed

lemma isLabel_fixed: "isLabel s \<Longrightarrow> slugifyHashtag s = Some s"
proof -
  assume a: "isLabel s"
  then have ne: "s \<noteq> []" and ch: "\<forall>c\<in>set s. isSlugChar c"
    and h: "take 1 s \<noteq> ''-''" and l: "take 1 (rev s) \<noteq> ''-''"
    and nr: "noRepeatedHyphen s" and len: "2 \<le> length s" and sw: "s \<notin> set STOPWORDS"
    by (auto simp: isLabel_def list_all_iff)
  from ne ch have hd: "isSlugChar (hd s)" and la: "isSlugChar (last s)" by auto
  have 1: "toLowerCase s = s"
    unfolding toLowerCase_def using ch by (simp add: map_idI slug_lower)
  have 2: "trim s = s"
    using ne hd la by (simp add: trim_id slug_not_space)
  have 3: "dropWhile (\<lambda>c. c = CHR ''#'') s = s"
    using ne hd slug_not_special[of "hd s"] by (cases s) auto
  have 4: "filter (\<lambda>c. c \<noteq> CHR 0x27 \<and> c \<noteq> CHR 0x22) s = s"
    using ch slug_not_special by (auto simp: filter_id_conv)
  have 5: "concat (map (\<lambda>c. if c = CHR ''&'' then '' and '' else [c]) s) = s"
    using ch slug_not_special by (intro concat_singletons) auto
  have 6: "map (\<lambda>c. if isSlugChar c \<or> isSpace c then c else CHR '' '') s = s"
    using ch by (simp add: map_idI)
  have 7: "replaceRuns isSpace (CHR '' '') s = s"
    using ch slug_not_space by (intro replaceRuns_id) auto
  have 9: "map (\<lambda>c. if isSpace c then CHR ''-'' else c) s = s"
    using ch slug_not_space by (simp add: map_idI)
  have 10: "replaceRuns (\<lambda>c. c = CHR ''-'') (CHR ''-'') s = s"
    using nr by (rule replaceRuns_hyphen_id)
  have 11: "stripEdgeHyphens s = s"
    using h l by (rule stripEdgeHyphens_id)
  show ?thesis
    unfolding slugifyHashtag_def Let_def 1 2 3 4 5 6 7 9 10 11
    using ne len sw by simp
qed

text \<open>
  C6. Slug normalisation is a total function of its input. Whenever it accepts, that is
  returns a string, the string satisfies the slug grammar (only \<open>[a-z0-9-]\<close>, hence
  lowercase, no hyphen at either end, no repeated hyphen, at least two characters, not a
  stopword), and normalising that string again returns it unchanged.
\<close>

theorem slugifyHashtag_grammar_idempotent:
  "slugifyHashtag raw = Some s \<Longrightarrow> isLabel s \<and> slugifyHashtag s = Some s"
  using slugifyHashtag_isLabel isLabel_fixed by blast

theorem slugifyHashtag_grammar_idempotent_witness:
  "slugifyHashtag ''  ##Hello  World & Co!  '' = Some ''hello-world-and-co'' \<and>
   isLabel ''hello-world-and-co'' \<and>
   slugifyHashtag ''hello-world-and-co'' = Some ''hello-world-and-co''"
proof -
  have h: "slugifyHashtag ''  ##Hello  World & Co!  '' = Some ''hello-world-and-co''"
    by code_simp
  from slugifyHashtag_grammar_idempotent[OF h] h show ?thesis by simp
qed

subsection \<open>uniqueStable\<close>

lemma uniqueStable_loop_out:
  "uniqueStable_loop seen out xs = out @ uniqueStable_loop seen [] xs"
proof (induction xs arbitrary: seen out)
  case Nil
  then show ?case by simp
next
  case (Cons x xs)
  show ?case
  proof (cases "x \<in> seen")
    case True
    then show ?thesis using Cons[of seen out] by simp
  next
    case False
    then show ?thesis
      using Cons[of "insert x seen" "out @ [x]"] Cons[of "insert x seen" "[x]"] by simp
  qed
qed

lemma uniqueStable_loop_Cons:
  "uniqueStable_loop seen [] (x # xs) =
     (if x \<in> seen then uniqueStable_loop seen [] xs
      else x # uniqueStable_loop (insert x seen) [] xs)"
  using uniqueStable_loop_out[of "insert x seen" "[x]" xs] by simp

lemma set_uniqueStable_loop: "set (uniqueStable_loop seen [] xs) = set xs - seen"
  by (induction xs arbitrary: seen) (auto simp: uniqueStable_loop_Cons simp del: uniqueStable_loop.simps(2))

lemma distinct_uniqueStable_loop: "distinct (uniqueStable_loop seen [] xs)"
  by (induction xs arbitrary: seen)
     (auto simp: uniqueStable_loop_Cons set_uniqueStable_loop simp del: uniqueStable_loop.simps(2))

lemma uniqueStable_loop_append:
  "uniqueStable_loop seen [] (xs @ ys) =
     uniqueStable_loop seen [] xs @ uniqueStable_loop (seen \<union> set xs) [] ys"
proof (induction xs arbitrary: seen)
  case Nil
  then show ?case by simp
next
  case (Cons x xs)
  show ?case
  proof (cases "x \<in> seen")
    case True
    then have "seen \<union> set (x # xs) = seen \<union> set xs" by auto
    with True Cons[of seen] show ?thesis
      by (simp add: uniqueStable_loop_Cons del: uniqueStable_loop.simps(2))
  next
    case False
    have "seen \<union> set (x # xs) = insert x seen \<union> set xs" by auto
    with False Cons[of "insert x seen"] show ?thesis
      by (simp add: uniqueStable_loop_Cons del: uniqueStable_loop.simps(2))
  qed
qed

lemma uniqueStable_loop_id:
  "distinct xs \<Longrightarrow> set xs \<inter> seen = {} \<Longrightarrow> uniqueStable_loop seen [] xs = xs"
  by (induction xs arbitrary: seen)
     (auto simp: uniqueStable_loop_Cons simp del: uniqueStable_loop.simps(2))

lemma set_uniqueStable: "set (uniqueStable xs) = set xs"
  by (simp add: uniqueStable_def set_uniqueStable_loop)

lemma distinct_uniqueStable: "distinct (uniqueStable xs)"
  by (simp add: uniqueStable_def distinct_uniqueStable_loop)

lemma uniqueStable_id: "distinct xs \<Longrightarrow> uniqueStable xs = xs"
  by (simp add: uniqueStable_def uniqueStable_loop_id)

lemma uniqueStable_append:
  "distinct xs \<Longrightarrow> uniqueStable (xs @ ys) = xs @ uniqueStable_loop (set xs) [] ys"
  by (simp add: uniqueStable_def uniqueStable_loop_append uniqueStable_loop_id)

subsection \<open>Vocabulary mapper\<close>

lemma concat_splitOn: "concat (splitOn d s) = filter (\<lambda>c. c \<noteq> d) s"
  by (induction s) (auto split: list.splits)


lemma isLabel_has_token: "isLabel s \<Longrightarrow> tokeniseSlug s \<noteq> []"
proof -
  assume a: "isLabel s"
  then obtain c cs where s: "s = c # cs" and c: "c \<noteq> CHR ''-''"
    by (cases s) (auto simp: isLabel_def)
  then have "concat (splitOn (CHR ''-'') s) \<noteq> []"
    by (simp add: concat_splitOn del: splitOn.simps)
  then obtain t where "t \<in> set (splitOn (CHR ''-'') s)" "t \<noteq> []"
    by (auto simp del: splitOn.simps)
  then have "t \<in> set (tokeniseSlug s)"
    unfolding tokeniseSlug_def set_uniqueStable by simp
  then show ?thesis by auto
qed

lemma mapToCache_loop_exact:
  "candidate \<in> set cache \<Longrightarrow>
   mapToCache_loop candidate candTokens threshold best bestScore cache =
     \<lparr>mapped = candidate, score = 1, fromEntry = Some candidate\<rparr>"
proof (induction cache arbitrary: best bestScore)
  case Nil
  then show ?case by simp
next
  case (Cons existing cache)
  show ?case
  proof (cases "existing = candidate")
    case True
    then show ?thesis by simp
  next
    case False
    with Cons.prems have "candidate \<in> set cache" by simp
    from Cons.IH[OF this] False show ?thesis by (simp add: Let_def)
  qed
qed

text \<open>
  The scores are doubles. A candidate that shares one token of five with an entry has
  the score \<open>1 / 5\<close> rounded, which is the threshold \<open>0.2\<close> itself: the candidate is
  mapped to the entry.
\<close>

lemma divDouble_samples:
  "divDouble 1 5 = 3602879701896397 / 18014398509481984"
  "divDouble 1 3 = 6004799503160661 / 18014398509481984"
  "divDouble 2 3 = 6004799503160661 / 9007199254740992"
  "divDouble 6 10 = cacheSimilarityThreshold defaults"
  "divDouble 1 2 = 1 / 2"
  "divDouble 4 4 = 1"
  by code_simp+

lemma mapToCache_rounded_score:
  "mapToCache ''aa'' [''aa-bb-cc-dd-ee''] (3602879701896397 / 18014398509481984) =
     \<lparr>mapped = ''aa-bb-cc-dd-ee'', score = 3602879701896397 / 18014398509481984,
      fromEntry = Some ''aa-bb-cc-dd-ee''\<rparr>"
  by code_simp

lemma mapToCache_untyped_loop_strings:
  "mapToCache_untyped_loop candidate candTokens threshold best bestScore (map JStr cache) =
     Inr (mapToCache_loop candidate candTokens threshold best bestScore cache)"
  by (induction cache arbitrary: best bestScore) (simp_all add: Let_def)

lemma mapToCache_untyped_strings:
  "mapToCache_untyped candidate (map JStr cache) threshold =
     Inr (mapToCache candidate cache threshold)"
  by (simp add: mapToCache_untyped_def mapToCache_def Let_def mapToCache_untyped_loop_strings)

text \<open>
  At run time an entry that is not a string ends the mapping with a \<open>TypeError\<close>, unless
  the candidate itself stands before it.
\<close>

lemma mapToCache_untyped_loop_not_string:
  "\<not> isString v \<Longrightarrow>
   mapToCache_untyped_loop candidate candTokens threshold best bestScore (v # cache) = Inl TypeError"
  by (cases v) (simp_all add: isString_def)

lemma mapToCache_untyped_loop_prefix:
  "candidate \<notin> set pre \<Longrightarrow> \<not> isString v \<Longrightarrow>
   mapToCache_untyped_loop candidate candTokens threshold best bestScore (map JStr pre @ v # cache) =
     Inl TypeError"
  by (induction pre arbitrary: best bestScore)
     (auto simp: mapToCache_untyped_loop_not_string Let_def)

text \<open>
  C9. For every candidate label, vocabulary and threshold: if the candidate is equal to
  some entry of the vocabulary, \<open>mapToCache\<close> returns that entry with score exactly 1,
  whatever the threshold (and whatever entries, however similar, stand before it).
\<close>

theorem mapToCache_exact_match:
  assumes "isLabel candidate" and "candidate \<in> set cache"
  shows "mapToCache candidate cache threshold =
           \<lparr>mapped = candidate, score = 1, fromEntry = Some candidate\<rparr>"
proof -
  have "tokeniseSlug candidate \<noteq> []" using assms(1) by (rule isLabel_has_token)
  then show ?thesis
    using mapToCache_loop_exact[OF assms(2)] by (simp add: mapToCache_def Let_def)
qed

theorem mapToCache_exact_match_witness:
  "isLabel ''api-design'' \<and> ''api-design'' \<in> set [''api'', ''api-design'', ''design''] \<and>
   mapToCache ''api-design'' [''api'', ''api-design'', ''design''] 2 =
     \<lparr>mapped = ''api-design'', score = 1, fromEntry = Some ''api-design''\<rparr>"
proof -
  have l: "isLabel ''api-design''" by code_simp
  have m: "''api-design'' \<in> set [''api'', ''api-design'', ''design'']" by simp
  from mapToCache_exact_match[OF l m, of 2] l m show ?thesis by simp
qed

subsection \<open>Configuration\<close>

lemma getProp_not_falsy: "getProp raw key = Some v \<Longrightarrow> \<not> falsy raw"
  by (cases raw) (auto simp: getProp_def falsy_def)

text \<open>
  C10. A similarity threshold outside \<open>[0,1]\<close> is not a configuration error. For a
  configuration file whose \<open>cacheSimilarityThreshold\<close> is a finite number \<open>v\<close>, the only
  errors \<open>loadConfig\<close> raises are those of the \<open>min\<close>/\<open>max\<close> checks, which do not
  look at \<open>v\<close>; when these pass, loading succeeds and the threshold is \<open>v\<close> clamped into
  \<open>[0,1]\<close>: 0 below 0, 1 above 1, \<open>v\<close> itself otherwise.
\<close>

theorem loadConfig_threshold_clamped:
  assumes "readJsonFile L fs cfgPath = Inr raw"
    and "getProp raw ''cacheSimilarityThreshold'' = Some (JNum v)"
  shows
    "(let m = finiteOr (getProp raw ''min'') 3; M = finiteOr (getProp raw ''max'') 12 in
      if m < 1 then loadConfig L fs cfgPath = Inl (ConfigMin m)
      else if M < m then loadConfig L fs cfgPath = Inl (ConfigMax M)
      else (\<exists>conf. loadConfig L fs cfgPath = Inr conf \<and>
              cacheSimilarityThreshold conf = (if v < 0 then 0 else if 1 < v then 1 else v) \<and>
              0 \<le> cacheSimilarityThreshold conf \<and> cacheSimilarityThreshold conf \<le> 1))"
proof -
  have nf: "\<not> falsy raw" using assms(2) by (rule getProp_not_falsy)
  have d: "min_cfg defaults = 3" "max_cfg defaults = 12" by (simp_all add: defaults_def)
  show ?thesis
    using assms nf d
    by (auto simp: loadConfig_def Let_def clampNumber_def min_def max_def)
qed

theorem loadConfig_threshold_clamped_witness:
  "\<exists>conf. loadConfig
       (noLibs\<lparr>JSON_parse := (\<lambda>s. Some (JObj [(''cacheSimilarityThreshold'', JNum (3 / 2))]))\<rparr>)
       (\<lambda>p. File ''{}'') ''tagger.config.json'' = Inr conf \<and>
     cacheSimilarityThreshold conf = 1"
proof -
  let ?L = "noLibs\<lparr>JSON_parse := (\<lambda>s. Some (JObj [(''cacheSimilarityThreshold'', JNum (3 / 2))]))\<rparr>"
  let ?raw = "JObj [(''cacheSimilarityThreshold'', JNum (3 / 2))]"
  have r: "readJsonFile ?L (\<lambda>p. File ''{}'') ''tagger.config.json'' = Inr ?raw"
    by (simp add: readJsonFile_def noLibs_def)
  have g: "getProp ?raw ''cacheSimilarityThreshold'' = Some (JNum (3 / 2))"
    by (simp add: getProp_def)
  from loadConfig_threshold_clamped[OF r g] show ?thesis
    by (auto simp: getProp_def finiteOr_def Let_def)
qed

subsection \<open>Denylist in glob mode\<close>

lemma slugifyAll_labels: "list_all isLabel (slugifyAll xs)"
  by (induction xs) (auto simp: slugifyAll_def slugifyHashtag_isLabel split: option.splits)

lemma loadConfig_denylist_labels:
  "loadConfig L fs cfgPath = Inr conf \<Longrightarrow> list_all isLabel (denylist conf)"
  by (auto simp: loadConfig_def Let_def defaults_def slugifyAll_labels
           split: sum.splits if_splits)

text \<open>
  C1. In glob mode the patterns of the denylist should be used as glob syntax. The glob
  matcher does what the claim says for the pattern \<open>astro-*\<close>: it matches
  \<open>astro-components\<close> and does not match \<open>astro\<close>. But \<open>loadConfig\<close> slugifies every
  entry of the denylist in either mode, and the pattern that reaches the matcher is
  \<open>astro\<close>: \<open>astro-components\<close> is kept and \<open>astro\<close> is denied.
\<close>

theorem glob_denylist_slugified_on_load:
  "regExpTest (globToRegExp ''astro-*'') ''astro-components'' \<and>
   \<not> regExpTest (globToRegExp ''astro-*'') ''astro'' \<and>
   (\<exists>conf.
      loadConfig
        (noLibs\<lparr>JSON_parse := (\<lambda>s. Some (JObj [(''denylist'', JArr [JStr ''astro-*'']),
                                                 (''denylistMode'', JStr ''glob'')]))\<rparr>)
        (\<lambda>p. File ''{}'') ''tagger.config.json'' = Inr conf \<and>
      denylistMode conf = Glob \<and>
      denylist conf = [''astro''] \<and>
      filterNewWithDenylist [''astro-components'', ''astro''] (denylist conf) (denylistMode conf) =
        \<lparr>kept = [''astro-components''], denied = [''astro'']\<rparr>)"
proof -
  have 1: "regExpTest (globToRegExp ''astro-*'') ''astro-components''" by code_simp
  have 2: "\<not> regExpTest (globToRegExp ''astro-*'') ''astro''" by code_simp
  have 3: "loadConfig
        (noLibs\<lparr>JSON_parse := (\<lambda>s. Some (JObj [(''denylist'', JArr [JStr ''astro-*'']),
                                                 (''denylistMode'', JStr ''glob'')]))\<rparr>)
        (\<lambda>p. File ''{}'') ''tagger.config.json'' =
      Inr (defaults\<lparr>denylist := [''astro''], denylistMode := Glob\<rparr>)"
    by code_simp
  have 4: "filterNewWithDenylist [''astro-components'', ''astro''] [''astro''] Glob =
        \<lparr>kept = [''astro-components''], denied = [''astro'']\<rparr>"
    by code_simp
  from 1 2 3 4 show ?thesis by simp
qed

subsection \<open>The outcome of one document\<close>

lemma processFile_Inr:
  assumes "fs filePath = File raw" and "matter L raw = Some parsed"
    and "processFile L filePath cfg conf cacheHashtags fs = (Inr out, fs')"
  shows "\<exists>M. mappedNewOf conf cacheHashtags
                (generatedAllOf (rawCandidatesOf L filePath conf parsed)) = Inr M \<and>
             final out = combinedOf conf (existingHashtagsOf (frontmatterOf parsed)) M"
    and "changed out =
           (addedOf (existingHashtagsOf (frontmatterOf parsed)) (final out) \<noteq> [] \<and>
            newRawOf L parsed (final out) \<noteq> raw)"
    and "added out =
           (if changed out then addedOf (existingHashtagsOf (frontmatterOf parsed)) (final out)
            else [])"
    and "fs' = (if changed out \<and> \<not> dryRun cfg
                then fs(filePath := File (newRawOf L parsed (final out))) else fs)"
  using assms
  by (auto simp: processFile_def Let_def writeFile_def split: if_splits sum.splits)

text \<open>
  C8. For every document that is processed to an outcome, \<open>changed\<close> is true if and only
  if the list of added labels is not empty and the reserialized document differs from the
  text that was read. (The outcome's own \<open>added\<close> is that list when \<open>changed\<close> is true
  and empty otherwise, so the equivalence holds for it as well.)
\<close>

theorem processFile_changed_iff:
  assumes "fs filePath = File raw" and "matter L raw = Some parsed"
    and "processFile L filePath cfg conf cacheHashtags fs = (Inr out, fs')"
  shows "changed out =
           (addedOf (existingHashtagsOf (frontmatterOf parsed)) (final out) \<noteq> [] \<and>
            newRawOf L parsed (final out) \<noteq> raw) \<and>
         changed out = (added out \<noteq> [] \<and> newRawOf L parsed (final out) \<noteq> raw)"
proof -
  note p = processFile_Inr[OF assms]
  show ?thesis
  proof (cases "changed out")
    case True
    with p(2,3) show ?thesis by simp
  next
    case False
    with p(2,3) show ?thesis by simp
  qed
qed

lemma processFile_unchanged:
  assumes "fs filePath = File raw" and "matter L raw = Some parsed"
    and "mappedNewOf conf cacheHashtags
           (generatedAllOf (rawCandidatesOf L filePath conf parsed)) = Inr M"
    and "addedOf (existingHashtagsOf (frontmatterOf parsed))
           (combinedOf conf (existingHashtagsOf (frontmatterOf parsed)) M) = []"
  shows "processFile L filePath cfg conf cacheHashtags fs =
           (Inr \<lparr>changed = False, added = [],
                 final = combinedOf conf (existingHashtagsOf (frontmatterOf parsed)) M\<rparr>, fs)"
  using assms by (simp add: processFile_def Let_def)

lemma mapAll_Inr: "(\<And>x. x \<in> set xs \<Longrightarrow> f x = Inr (g x)) \<Longrightarrow> mapAll f xs = Inr (map g xs)"
  by (induction xs) simp_all

lemma mappedNewOf_strings:
  "mappedNewOf conf (map JStr voc) g =
     Inr (map (\<lambda>c. mapped (mapToCache c voc (cacheSimilarityThreshold conf)))
            (kept (filterNewWithDenylist g (denylist conf) (denylistMode conf))))"
  by (simp add: mappedNewOf_def Let_def
        mapAll_Inr[where g = "\<lambda>c. mapToCache c voc (cacheSimilarityThreshold conf)"]
        mapToCache_untyped_strings)

lemma mapToCache_empty_cache: "mapped (mapToCache c [] t) = c"
  by (simp add: mapToCache_def Let_def)

lemma mappedNewOf_empty: "denylist conf = [] \<Longrightarrow> mappedNewOf conf [] g = Inr g"
  using mappedNewOf_strings[of conf "[]" g]
  by (simp add: filterNewWithDenylist_def mapToCache_empty_cache map_idI)

subsection \<open>The running example\<close>

lemma sample_raw_candidates:
  "rawCandidatesOf sampleLibs ''post.md'' defaults samplePost =
     [''Intro to API Design'', ''apis'', ''about'', ''contracts'', ''need'', ''versioning'']"
  by code_simp

lemma sample_slugs:
  "slugifyHashtag ''Intro to API Design'' = Some ''intro-to-api-design''"
  "slugifyHashtag ''apis'' = Some ''apis''"
  "slugifyHashtag ''about'' = Some ''about''"
  "slugifyHashtag ''contracts'' = Some ''contracts''"
  "slugifyHashtag ''need'' = Some ''need''"
  "slugifyHashtag ''versioning'' = Some ''versioning''"
  "slugifyHashtag ''api'' = Some ''api''"
  by code_simp+

lemma sample_generated:
  "generatedAllOf [''Intro to API Design'', ''apis'', ''about'', ''contracts'', ''need'', ''versioning''] =
     [''intro-to-api-design'', ''apis'', ''about'', ''contracts'', ''need'', ''versioning'']"
  by (simp add: generatedAllOf_def slugifyAll_def sample_slugs uniqueStable_def)

lemma sample_existing: "existingHashtagsOf (frontmatterOf samplePost) = [''api'']"
  by (simp add: existingHashtagsOf_def frontmatterOf_def samplePost_def slugifyAll_def
        sample_slugs uniqueStable_def)

lemma sample_combined:
  "combinedOf defaults [''api'']
     [''intro-to-api-design'', ''apis'', ''about'', ''contracts'', ''need'', ''versioning''] =
   [''api'', ''intro-to-api-design'', ''apis'', ''about'', ''contracts'', ''need'', ''versioning'']"
  by code_simp

lemma sample_newRaw:
  "newRawOf sampleLibs samplePost
     [''api'', ''intro-to-api-design'', ''apis'', ''about'', ''contracts'', ''need'', ''versioning'']
   = textOf samplePostWritten"
  by code_simp

lemma sample_texts_differ: "textOf samplePostWritten \<noteq> textOf samplePost"
  by code_simp

lemma sample_matter: "matter sampleLibs (textOf samplePost) = Some samplePost"
  by (simp add: sampleLibs_def noLibs_def)

lemma sample_writable: "writable sampleLibs p"
  by (simp add: sampleLibs_def noLibs_def)

lemma sample_first_run:
  "processFile sampleLibs ''post.md'' writeMode defaults [] sampleFiles =
     (Inr \<lparr>changed = True,
           added = [''intro-to-api-design'', ''apis'', ''about'', ''contracts'', ''need'',
                    ''versioning''],
           final = [''api'', ''intro-to-api-design'', ''apis'', ''about'', ''contracts'', ''need'',
                    ''versioning'']\<rparr>,
      sampleFiles(''post.md'' := File (textOf samplePostWritten)))"
proof -
  have d: "denylist defaults = []" "\<not> dryRun writeMode"
    by (simp_all add: defaults_def writeMode_def)
  have f: "sampleFiles ''post.md'' = File (textOf samplePost)"
    by (simp add: sampleFiles_def)
  show ?thesis
    unfolding processFile_def
    by (simp add: f sample_matter sample_raw_candidates sample_generated sample_existing
          mappedNewOf_empty d sample_combined addedOf_def sample_newRaw sample_texts_differ
          writeFile_def sample_writable Let_def)
qed

theorem processFile_changed_iff_witness:
  "changed \<lparr>changed = True,
            added = [''intro-to-api-design'', ''apis'', ''about'', ''contracts'', ''need'',
                     ''versioning''],
            final = [''api'', ''intro-to-api-design'', ''apis'', ''about'', ''contracts'', ''need'',
                     ''versioning'']\<rparr> \<and>
   addedOf (existingHashtagsOf (frontmatterOf samplePost))
     [''api'', ''intro-to-api-design'', ''apis'', ''about'', ''contracts'', ''need'', ''versioning'']
     \<noteq> [] \<and>
   newRawOf sampleLibs samplePost
     [''api'', ''intro-to-api-design'', ''apis'', ''about'', ''contracts'', ''need'', ''versioning'']
     \<noteq> textOf samplePost"
proof -
  have f: "sampleFiles ''post.md'' = File (textOf samplePost)"
    by (simp add: sampleFiles_def)
  from processFile_changed_iff[OF f sample_matter sample_first_run] show ?thesis by simp
qed

subsection \<open>Merge policy\<close>

lemma sliceTo_nonneg: "0 \<le> e \<Longrightarrow> sliceTo xs e = take (nat \<lfloor>e\<rfloor>) xs"
proof -
  assume e: "0 \<le> e"
  then have k: "toIntegerOrInfinity e = \<lfloor>e\<rfloor>" "0 \<le> \<lfloor>e\<rfloor>"
    by (simp_all add: toIntegerOrInfinity_def)
  show ?thesis
  proof (cases "\<lfloor>e\<rfloor> \<le> int (length xs)")
    case True
    with k show ?thesis by (simp add: sliceTo_def Let_def min_def)
  next
    case False
    then have "length xs \<le> nat \<lfloor>e\<rfloor>" by linarith
    with k False show ?thesis by (simp add: sliceTo_def Let_def min_def)
  qed
qed

lemma floor_less_length: "rat_of_nat n < e \<Longrightarrow> n \<le> nat \<lfloor>e\<rfloor>"
proof -
  assume "rat_of_nat n < e"
  then have "of_int (int n) \<le> e" by simp
  then have "int n \<le> \<lfloor>e\<rfloor>" by (simp only: le_floor_iff)
  then show ?thesis by linarith
qed

lemma floor_ge_length: "e \<le> rat_of_nat n \<Longrightarrow> nat \<lfloor>e\<rfloor> \<le> n"
proof -
  assume "e \<le> rat_of_nat n"
  then have "e \<le> of_int (int n)" by simp
  then have "\<lfloor>e\<rfloor> \<le> int n" by (metis floor_mono floor_of_int)
  then show ?thesis by linarith
qed

lemma distinct_existingHashtagsOf: "distinct (existingHashtagsOf fm)"
  by (simp add: existingHashtagsOf_def distinct_uniqueStable)

lemma combinedOf_split:
  assumes "0 \<le> max_cfg conf" and "distinct E"
  shows "combinedOf conf E M =
           take (nat \<lfloor>max_cfg conf\<rfloor>) E @
           take (nat \<lfloor>max_cfg conf\<rfloor> - length E) (uniqueStable_loop (set E) [] M)"
  using assms by (simp add: combinedOf_def sliceTo_nonneg uniqueStable_append)

text \<open>
  The merge policy on the list \<open>E\<close> of existing hashtags that \<open>processFile\<close> computes.
\<close>

lemma processFile_merge_policy:
  assumes "fs filePath = File raw" and "matter L raw = Some parsed"
    and "processFile L filePath cfg conf cacheHashtags fs = (Inr out, fs')"
    and "0 \<le> max_cfg conf"
    and "E = existingHashtagsOf (frontmatterOf parsed)"
  shows "rat_of_nat (length E) < max_cfg conf \<Longrightarrow>
           \<exists>new. final out = E @ new \<and> set new \<inter> set E = {}"
    and "max_cfg conf \<le> rat_of_nat (length E) \<Longrightarrow>
           final out = take (nat \<lfloor>max_cfg conf\<rfloor>) E \<and> added out = []"
proof -
  let ?k = "nat \<lfloor>max_cfg conf\<rfloor>"
  note p = processFile_Inr[OF assms(1,2,3)]
  have dE: "distinct E" unfolding assms(5) by (rule distinct_existingHashtagsOf)
  from p(1) obtain M where "final out = combinedOf conf E M" unfolding assms(5) by blast
  then have f: "final out = take ?k E @ take (?k - length E) (uniqueStable_loop (set E) [] M)"
    using combinedOf_split[OF assms(4) dE] by simp
  {
    assume "rat_of_nat (length E) < max_cfg conf"
    then have "length E \<le> ?k" by (rule floor_less_length)
    with f have "final out = E @ take (?k - length E) (uniqueStable_loop (set E) [] M)"
      by simp
    moreover have "set (take (?k - length E) (uniqueStable_loop (set E) [] M)) \<inter> set E = {}"
      using set_take_subset[of "?k - length E" "uniqueStable_loop (set E) [] M"]
      by (auto simp: set_uniqueStable_loop)
    ultimately show "\<exists>new. final out = E @ new \<and> set new \<inter> set E = {}" by blast
  }
  {
    assume "max_cfg conf \<le> rat_of_nat (length E)"
    then have "?k \<le> length E" by (rule floor_ge_length)
    with f have t: "final out = take ?k E" by simp
    then have "addedOf E (final out) = []"
      by (auto simp: addedOf_def filter_empty_conv dest: in_set_takeD)
    with p(3) have "added out = []" unfolding assms(5) by simp
    with t show "final out = take (nat \<lfloor>max_cfg conf\<rfloor>) E \<and> added out = []" by simp
  }
qed

lemma existingHashtagsOf_labels:
  assumes "map_of fm ''hashtags'' = None \<or> isStringArray (map_of fm ''hashtags'')"
    and "list_all isLabel (strings (map_of fm ''hashtags''))"
  shows "existingHashtagsOf fm = uniqueStable (strings (map_of fm ''hashtags''))"
proof -
  have "\<And>hs. list_all isLabel hs \<Longrightarrow> slugifyAll hs = hs"
  proof -
    fix hs show "list_all isLabel hs \<Longrightarrow> slugifyAll hs = hs"
      by (induction hs) (auto simp: slugifyAll_def isLabel_fixed)
  qed
  from this[OF assms(2)] assms(1) show ?thesis
    by (auto simp: existingHashtagsOf_def uniqueStable_def)
qed

text \<open>
  C5, as the code has it. Take a document that is processed to an outcome and whose
  \<open>hashtags\<close> key is absent or a list \<open>hs\<close> of labels. The existing labels of the
  merge are \<open>E\<close>, the list \<open>hs\<close> without its repeated entries: the same labels, each
  once, in the order of their first occurrence (\<open>E\<close> is \<open>hs\<close> when no label is
  repeated). If \<open>E\<close> has fewer than \<open>max\<close> entries, the final list is \<open>E\<close> followed
  by labels that are not in \<open>hs\<close>: every existing label is in the final list, first
  and in its order. If \<open>E\<close> has at least \<open>max\<close> entries, the final list is \<open>E\<close> cut
  to \<open>max\<close> and \<open>added\<close> is empty. The bound \<open>0 \<le> max\<close> holds for every
  configuration that \<open>loadConfig\<close> returns. A \<open>hashtags\<close> key that holds anything but
  labels is outside this statement.
\<close>

theorem processFile_keeps_existing:
  assumes "fs filePath = File raw" and "matter L raw = Some parsed"
    and "processFile L filePath cfg conf cacheHashtags fs = (Inr out, fs')"
    and "0 \<le> max_cfg conf"
    and "map_of (frontmatterOf parsed) ''hashtags'' = None \<or>
         isStringArray (map_of (frontmatterOf parsed) ''hashtags'')"
    and "hs = strings (map_of (frontmatterOf parsed) ''hashtags'')"
    and "list_all isLabel hs"
    and "E = uniqueStable hs"
  shows "set E = set hs \<and> distinct E \<and> (distinct hs \<longrightarrow> E = hs) \<and>
         (rat_of_nat (length E) < max_cfg conf \<longrightarrow>
            (\<exists>new. final out = E @ new \<and> set new \<inter> set hs = {})) \<and>
         (max_cfg conf \<le> rat_of_nat (length E) \<longrightarrow>
            final out = take (nat \<lfloor>max_cfg conf\<rfloor>) E \<and> added out = [])"
proof -
  have E: "E = existingHashtagsOf (frontmatterOf parsed)"
    unfolding assms(8) assms(6)
    using assms(5) assms(7)[unfolded assms(6)] by (rule existingHashtagsOf_labels[symmetric])
  note m = processFile_merge_policy[OF assms(1,2,3,4) E]
  have s: "set E = set hs" unfolding assms(8) by (rule set_uniqueStable)
  show ?thesis
  proof (intro conjI impI)
    show "set E = set hs" by (rule s)
    show "distinct E" unfolding assms(8) by (rule distinct_uniqueStable)
  next
    assume "distinct hs"
    then show "E = hs" unfolding assms(8) by (rule uniqueStable_id)
  next
    assume "rat_of_nat (length E) < max_cfg conf"
    then show "\<exists>new. final out = E @ new \<and> set new \<inter> set hs = {}"
      using m(1) unfolding s by blast
  next
    assume a: "max_cfg conf \<le> rat_of_nat (length E)"
    from m(2)[OF a] show "final out = take (nat \<lfloor>max_cfg conf\<rfloor>) E" by simp
    from m(2)[OF a] show "added out = []" by simp
  qed
qed

text \<open>What \<open>loadConfig\<close> checks before it returns a configuration.\<close>

lemma loadConfig_valid:
  "loadConfig L fs cfgPath = Inr conf \<Longrightarrow> 1 \<le> min_cfg conf \<and> min_cfg conf \<le> max_cfg conf"
  by (auto simp: loadConfig_def Let_def defaults_def split: sum.splits if_splits)

lemma sample_combined_max1:
  "combinedOf (defaults\<lparr>min_cfg := 1, max_cfg := 1\<rparr>) [''api'']
     [''intro-to-api-design'', ''apis'', ''about'', ''contracts'', ''need'', ''versioning''] =
   [''api'']"
  by code_simp

lemma sample_run_max1:
  "processFile sampleLibs ''post.md'' writeMode (defaults\<lparr>min_cfg := 1, max_cfg := 1\<rparr>) []
     sampleFiles =
   (Inr \<lparr>changed = False, added = [], final = [''api'']\<rparr>, sampleFiles)"
proof -
  have f: "sampleFiles ''post.md'' = File (textOf samplePost)"
    by (simp add: sampleFiles_def)
  have r: "rawCandidatesOf sampleLibs ''post.md'' (defaults\<lparr>min_cfg := 1, max_cfg := 1\<rparr>) samplePost =
           rawCandidatesOf sampleLibs ''post.md'' defaults samplePost"
    by (simp add: rawCandidatesOf_def)
  have m: "mappedNewOf (defaults\<lparr>min_cfg := 1, max_cfg := 1\<rparr>) []
             (generatedAllOf (rawCandidatesOf sampleLibs ''post.md''
                (defaults\<lparr>min_cfg := 1, max_cfg := 1\<rparr>) samplePost)) =
           Inr [''intro-to-api-design'', ''apis'', ''about'', ''contracts'', ''need'', ''versioning'']"
    unfolding r sample_raw_candidates sample_generated
    by (rule mappedNewOf_empty) (simp add: defaults_def)
  have a: "addedOf (existingHashtagsOf (frontmatterOf samplePost))
             (combinedOf (defaults\<lparr>min_cfg := 1, max_cfg := 1\<rparr>)
                (existingHashtagsOf (frontmatterOf samplePost))
                [''intro-to-api-design'', ''apis'', ''about'', ''contracts'', ''need'', ''versioning'']) = []"
    by (simp add: sample_existing sample_combined_max1 addedOf_def)
  from processFile_unchanged[where fs = sampleFiles and filePath = "''post.md''", OF f sample_matter m a]
  show ?thesis by (simp add: sample_existing sample_combined_max1)
qed

theorem processFile_keeps_existing_witness:
  "uniqueStable [''api''] = [''api''] \<and>
   (\<exists>new. [''api'', ''intro-to-api-design'', ''apis'', ''about'', ''contracts'', ''need'',
            ''versioning''] = [''api''] @ new \<and> set new \<inter> set [''api''] = {}) \<and>
   (\<exists>out fs'.
      processFile sampleLibs ''post.md'' writeMode (defaults\<lparr>min_cfg := 1, max_cfg := 1\<rparr>) []
        sampleFiles = (Inr out, fs') \<and>
      final out = take 1 [''api''] \<and> added out = [])"
proof -
  have f: "sampleFiles ''post.md'' = File (textOf samplePost)"
    by (simp add: sampleFiles_def)
  have s: "map_of (frontmatterOf samplePost) ''hashtags'' = None \<or>
           isStringArray (map_of (frontmatterOf samplePost) ''hashtags'')"
    by (simp add: frontmatterOf_def samplePost_def)
  have h: "[''api''] = strings (map_of (frontmatterOf samplePost) ''hashtags'')"
    by (simp add: frontmatterOf_def samplePost_def)
  have l: "list_all isLabel [''api'']" by code_simp
  have d: "distinct [''api'']" by simp
  have m: "0 \<le> max_cfg defaults" by (simp add: defaults_def)
  have m1: "0 \<le> max_cfg (defaults\<lparr>min_cfg := 1, max_cfg := 1\<rparr>)" by simp
  note t = processFile_keeps_existing[OF f sample_matter sample_first_run m s h l refl]
  from t d have e: "uniqueStable [''api''] = [''api'']" by blast
  have "rat_of_nat (length (uniqueStable [''api''])) < max_cfg defaults"
    unfolding e by (simp add: defaults_def)
  with t have 1: "\<exists>new. [''api'', ''intro-to-api-design'', ''apis'', ''about'', ''contracts'', ''need'',
            ''versioning''] = [''api''] @ new \<and> set new \<inter> set [''api''] = {}"
    unfolding e by simp
  note t1 = processFile_keeps_existing[OF f sample_matter sample_run_max1 m1 s h l refl]
  have "max_cfg (defaults\<lparr>min_cfg := 1, max_cfg := 1\<rparr>)
          \<le> rat_of_nat (length (uniqueStable [''api'']))"
    unfolding e by simp
  with t1 have "final \<lparr>changed = False, added = [], final = [''api'']\<rparr> = take 1 [''api''] \<and>
                added \<lparr>changed = False, added = [], final = [''api'']\<rparr> = []"
    unfolding e by simp
  with sample_run_max1 have 2: "\<exists>out fs'.
      processFile sampleLibs ''post.md'' writeMode (defaults\<lparr>min_cfg := 1, max_cfg := 1\<rparr>) []
        sampleFiles = (Inr out, fs') \<and>
      final out = take 1 [''api''] \<and> added out = []"
    by blast
  from e 1 2 show ?thesis by blast
qed

lemma untidy_slugs:
  "slugifyHashtag ''API Design'' = Some ''api-design''"
  "slugifyHashtag ''the'' = None"
  "slugifyHashtag ''Zed'' = Some ''zed''"
  by code_simp+

lemma zed_candidates:
  "rawCandidatesOf (libsOf posts) ''zed.md'' conf untidyPost = sliceTo [''Zed''] (candidateLimit conf)"
  "rawCandidatesOf (libsOf posts) ''zed.md'' conf yearPost = sliceTo [''Zed''] (candidateLimit conf)"
  "rawCandidatesOf (libsOf posts) ''zed.md'' conf twicePost = sliceTo [''Zed''] (candidateLimit conf)"
proof -
  have t: "trim ''Zed'' = ''Zed''" by code_simp
  have h: "extractHeadings [] = []" by code_simp
  have k: "\<And>limit. topKeywords (stripCodeBlocks []) limit = []"
    by (simp add: topKeywords_def stripCodeBlocks_def extractWords_def trim_def sliceTo_def
          toLowerCase_def)
  show "rawCandidatesOf (libsOf posts) ''zed.md'' conf untidyPost =
          sliceTo [''Zed''] (candidateLimit conf)"
    by (simp add: rawCandidatesOf_def untidyPost_def frontmatterOf_def getTitleFromFrontmatter_def
          t h k uniqueStable_def)
  show "rawCandidatesOf (libsOf posts) ''zed.md'' conf yearPost =
          sliceTo [''Zed''] (candidateLimit conf)"
    by (simp add: rawCandidatesOf_def yearPost_def frontmatterOf_def getTitleFromFrontmatter_def
          t h k uniqueStable_def)
  show "rawCandidatesOf (libsOf posts) ''zed.md'' conf twicePost =
          sliceTo [''Zed''] (candidateLimit conf)"
    by (simp add: rawCandidatesOf_def twicePost_def frontmatterOf_def getTitleFromFrontmatter_def
          t h k uniqueStable_def)
qed

lemma zed_generated: "generatedAllOf (sliceTo [''Zed''] (candidateLimit defaults)) = [''zed'']"
proof -
  have "sliceTo [''Zed''] (candidateLimit defaults) = [''Zed'']" by code_simp
  then show ?thesis
    by (simp add: generatedAllOf_def slugifyAll_def untidy_slugs uniqueStable_def)
qed

text \<open>
  C5, as it is stated, fails. The post \<open>twicePost\<close> has the two hashtags \<open>api\<close> and
  \<open>api\<close>, both labels, and \<open>max\<close> is 2. The number of existing labels is \<open>max\<close>,
  yet a label is added and the final list is not the list of the existing labels: the
  code counts the repeated label once.
\<close>

theorem repeated_label_counterexample:
  "strings (map_of (frontmatterOf twicePost) ''hashtags'') = [''api'', ''api''] \<and>
   list_all isLabel [''api'', ''api''] \<and>
   max_cfg (defaults\<lparr>min_cfg := 2, max_cfg := 2\<rparr>) = 2 \<and>
   processFile (libsOf [twicePost]) ''zed.md'' writeMode (defaults\<lparr>min_cfg := 2, max_cfg := 2\<rparr>) []
     (\<lambda>p. File (textOf twicePost)) =
     (Inr \<lparr>changed = True, added = [''zed''], final = [''api'', ''zed'']\<rparr>,
      (\<lambda>p. File (textOf twicePost))(''zed.md'' := File (textOf twicePostWritten)))"
proof -
  let ?conf = "defaults\<lparr>min_cfg := 2, max_cfg := 2\<rparr>"
  have 1: "strings (map_of (frontmatterOf twicePost) ''hashtags'') = [''api'', ''api'']"
    by (simp add: frontmatterOf_def twicePost_def)
  have 2: "list_all isLabel [''api'', ''api'']" by code_simp
  have m: "matter (libsOf [twicePost]) (textOf twicePost) = Some twicePost"
    by (simp add: libsOf_def noLibs_def)
  have w: "writable (libsOf [twicePost]) ''zed.md''" by (simp add: libsOf_def noLibs_def)
  have d: "denylist defaults = []" "\<not> dryRun writeMode"
    by (simp_all add: defaults_def writeMode_def)
  have e: "existingHashtagsOf (frontmatterOf twicePost) = [''api'']"
    by (simp add: existingHashtagsOf_def frontmatterOf_def twicePost_def slugifyAll_def
          sample_slugs uniqueStable_def)
  have c: "combinedOf ?conf [''api''] [''zed''] = [''api'', ''zed'']" by code_simp
  have n: "newRawOf (libsOf [twicePost]) twicePost [''api'', ''zed''] = textOf twicePostWritten"
    by code_simp
  have x: "textOf twicePostWritten \<noteq> textOf twicePost" by code_simp
  have 3: "processFile (libsOf [twicePost]) ''zed.md'' writeMode ?conf []
     (\<lambda>p. File (textOf twicePost)) =
     (Inr \<lparr>changed = True, added = [''zed''], final = [''api'', ''zed'']\<rparr>,
      (\<lambda>p. File (textOf twicePost))(''zed.md'' := File (textOf twicePostWritten)))"
    unfolding processFile_def
    by (simp add: m zed_candidates d zed_generated e mappedNewOf_empty c addedOf_def
          n x writeFile_def w Let_def)
  from 1 2 3 show ?thesis by simp
qed

text \<open>
  Outside the amended statement: hashtags that are not labels. Strings are normalised
  like candidates, and a string that the normalisation rejects is left out. The post
  \<open>untidyPost\<close> has the hashtags \<open>API Design\<close>, \<open>the\<close>, \<open>api\<close>, \<open>api\<close>; with
  \<open>max = 4\<close> it is written back with \<open>api-design\<close>, \<open>api\<close>, \<open>zed\<close>.
\<close>

lemma untidy_existing: "existingHashtagsOf (frontmatterOf untidyPost) = [''api-design'', ''api'']"
  by (simp add: existingHashtagsOf_def frontmatterOf_def untidyPost_def slugifyAll_def
        untidy_slugs sample_slugs uniqueStable_def)

lemma untidy_hashtags_rewritten:
  "processFile (libsOf [untidyPost]) ''zed.md'' writeMode (defaults\<lparr>max_cfg := 4\<rparr>) []
     (\<lambda>p. File (textOf untidyPost)) =
     (Inr \<lparr>changed = True, added = [''zed''], final = [''api-design'', ''api'', ''zed'']\<rparr>,
      (\<lambda>p. File (textOf untidyPost))(''zed.md'' := File (textOf untidyPostWritten)))"
proof -
  let ?conf = "defaults\<lparr>max_cfg := 4\<rparr>"
  have m: "matter (libsOf [untidyPost]) (textOf untidyPost) = Some untidyPost"
    by (simp add: libsOf_def noLibs_def)
  have w: "writable (libsOf [untidyPost]) ''zed.md''" by (simp add: libsOf_def noLibs_def)
  have d: "denylist defaults = []" "\<not> dryRun writeMode"
    by (simp_all add: defaults_def writeMode_def)
  have c: "combinedOf ?conf [''api-design'', ''api''] [''zed''] = [''api-design'', ''api'', ''zed'']"
    by code_simp
  have n: "newRawOf (libsOf [untidyPost]) untidyPost [''api-design'', ''api'', ''zed''] =
           textOf untidyPostWritten"
    by code_simp
  have x: "textOf untidyPostWritten \<noteq> textOf untidyPost" by code_simp
  show ?thesis
    unfolding processFile_def
    by (simp add: m zed_candidates d zed_generated untidy_existing mappedNewOf_empty c addedOf_def
          n x writeFile_def w Let_def)
qed

text \<open>
  A list of hashtags with an entry that is not a string is not read as labels at all
  (\<open>isStringArray\<close> refuses the whole list), and when labels are added the key is
  overwritten. The post \<open>yearPost\<close> has the hashtags \<open>api\<close> and the number 2024; it
  is written back with the one hashtag \<open>zed\<close>.
\<close>

lemma mixed_hashtags_overwritten:
  "processFile (libsOf [yearPost]) ''zed.md'' writeMode defaults []
     (\<lambda>p. File (textOf yearPost)) =
     (Inr \<lparr>changed = True, added = [''zed''], final = [''zed'']\<rparr>,
      (\<lambda>p. File (textOf yearPost))(''zed.md'' := File (textOf yearPostWritten)))"
proof -
  have m: "matter (libsOf [yearPost]) (textOf yearPost) = Some yearPost"
    by (simp add: libsOf_def noLibs_def)
  have w: "writable (libsOf [yearPost]) ''zed.md''" by (simp add: libsOf_def noLibs_def)
  have d: "denylist defaults = []" "\<not> dryRun writeMode"
    by (simp_all add: defaults_def writeMode_def)
  have e: "existingHashtagsOf (frontmatterOf yearPost) = []"
    by (simp add: existingHashtagsOf_def frontmatterOf_def yearPost_def)
  have c: "combinedOf defaults [] [''zed''] = [''zed'']" by code_simp
  have n: "newRawOf (libsOf [yearPost]) yearPost [''zed''] = textOf yearPostWritten"
    by code_simp
  have x: "textOf yearPostWritten \<noteq> textOf yearPost" by code_simp
  show ?thesis
    unfolding processFile_def
    by (simp add: m zed_candidates d zed_generated e mappedNewOf_empty c addedOf_def
          n x writeFile_def w Let_def)
qed

subsection \<open>What is written back\<close>

lemma filter_update_other:
  "filter (\<lambda>e. fst e \<noteq> k) (AList.update k v al) = filter (\<lambda>e. fst e \<noteq> k) al"
  by (induction al) auto

lemma map_of_update_same: "map_of (AList.update k v al) k = Some v"
  by (simp add: AList.update_conv)

text \<open>
  C4, as the code has it. When a document is written back, the metadata given to the
  dumper differs from the metadata read in the \<open>hashtags\<close> key only: it holds the final
  list, and every other key keeps its value and its place. The file is the dumped
  metadata followed by the body without its leading line feeds and with one line feed
  added; no other file changes, and a document that is unchanged or processed in a dry
  run is not written at all.
\<close>

theorem processFile_writes_hashtags_only:
  assumes "fs filePath = File raw" and "matter L raw = Some parsed"
    and "processFile L filePath cfg conf cacheHashtags fs = (Inr out, fs')"
  shows "(changed out \<and> \<not> dryRun cfg \<longrightarrow>
           (\<exists>fm'. fs' filePath = File (toYamlFrontmatter L fm' @ bodyOut (content parsed)) \<and>
                  map_of fm' ''hashtags'' = Some (JArr (map JStr (final out))) \<and>
                  filter (\<lambda>e. fst e \<noteq> ''hashtags'') fm' =
                  filter (\<lambda>e. fst e \<noteq> ''hashtags'') (frontmatterOf parsed))) \<and>
         (\<not> (changed out \<and> \<not> dryRun cfg) \<longrightarrow> fs' = fs) \<and>
         (\<forall>q. q \<noteq> filePath \<longrightarrow> fs' q = fs q)"
proof -
  note p = processFile_Inr[OF assms]
  let ?fm' = "AList.update ''hashtags'' (JArr (map JStr (final out))) (frontmatterOf parsed)"
  have w: "newRawOf L parsed (final out) = toYamlFrontmatter L ?fm' @ bodyOut (content parsed)"
    by (simp add: newRawOf_def)
  show ?thesis
  proof (intro conjI impI allI)
    assume "changed out \<and> \<not> dryRun cfg"
    with p(4) w have "fs' filePath = File (toYamlFrontmatter L ?fm' @ bodyOut (content parsed))"
      by simp
    then show "\<exists>fm'. fs' filePath = File (toYamlFrontmatter L fm' @ bodyOut (content parsed)) \<and>
                  map_of fm' ''hashtags'' = Some (JArr (map JStr (final out))) \<and>
                  filter (\<lambda>e. fst e \<noteq> ''hashtags'') fm' =
                  filter (\<lambda>e. fst e \<noteq> ''hashtags'') (frontmatterOf parsed)"
      by (intro exI[of _ ?fm']) (simp add: map_of_update_same filter_update_other)
  next
    assume "\<not> (changed out \<and> \<not> dryRun cfg)"
    with p(4) show "fs' = fs" by simp
  next
    fix q assume "q \<noteq> filePath"
    with p(4) show "fs' q = fs q" by simp
  qed
qed

theorem processFile_writes_hashtags_only_witness:
  "\<exists>fm'. textOf samplePostWritten =
            toYamlFrontmatter sampleLibs fm' @ bodyOut (content samplePost) \<and>
         map_of fm' ''hashtags'' =
           Some (JArr (map JStr [''api'', ''intro-to-api-design'', ''apis'', ''about'',
             ''contracts'', ''need'', ''versioning''])) \<and>
         filter (\<lambda>e. fst e \<noteq> ''hashtags'') fm' = [(''title'', JStr ''Intro to API Design'')]"
proof -
  have f: "sampleFiles ''post.md'' = File (textOf samplePost)"
    by (simp add: sampleFiles_def)
  have d: "\<not> dryRun writeMode" by (simp add: writeMode_def)
  from processFile_writes_hashtags_only[OF f sample_matter sample_first_run] d
  show ?thesis
    by (simp add: frontmatterOf_def samplePost_def)
qed

text \<open>
  C4, as it is stated, fails on the body: the example post is read with the body
  \<open>\nAPIs ... versioning.\n\<close> and written with \<open>APIs ... versioning.\n\n\<close>; the text
  that is written does not end with the body that was read.
\<close>

theorem body_not_preserved_counterexample:
  "snd (processFile sampleLibs ''post.md'' writeMode defaults [] sampleFiles) ''post.md'' =
     File (textOf samplePostWritten) \<and>
   textOf samplePostWritten =
     toYamlFrontmatter sampleLibs (frontmatterOf samplePostWritten) @
     ''APIs are about contracts. APIs need versioning.'' @ [CHR 0x0A, CHR 0x0A] \<and>
   content samplePost =
     [CHR 0x0A] @ ''APIs are about contracts. APIs need versioning.'' @ [CHR 0x0A] \<and>
   \<not> suffix (content samplePost) (textOf samplePostWritten)"
proof -
  have 1: "snd (processFile sampleLibs ''post.md'' writeMode defaults [] sampleFiles) ''post.md'' =
     File (textOf samplePostWritten)"
    by (simp add: sample_first_run)
  have 2: "textOf samplePostWritten =
     toYamlFrontmatter sampleLibs (frontmatterOf samplePostWritten) @
     ''APIs are about contracts. APIs need versioning.'' @ [CHR 0x0A, CHR 0x0A]"
    by (simp add: textOf_def toYamlFrontmatter_def sampleLibs_def noLibs_def samplePostWritten_def)
  have 3: "content samplePost =
     [CHR 0x0A] @ ''APIs are about contracts. APIs need versioning.'' @ [CHR 0x0A]"
    by (simp add: samplePost_def)
  have "rev (content samplePost) = CHR 0x0A # CHR ''.'' # rev ([CHR 0x0A] @ ''APIs are about contracts. APIs need versioning'')"
    by (simp add: samplePost_def)
  moreover have "\<exists>t. rev (textOf samplePostWritten) = CHR 0x0A # CHR 0x0A # t"
    unfolding 2 by simp
  ultimately have 4: "\<not> suffix (content samplePost) (textOf samplePostWritten)"
    unfolding suffix_to_prefix by (auto simp: prefix_Cons)
  from 1 2 3 4 show ?thesis by blast
qed

subsection \<open>Heading candidates\<close>

lemma take_uniqueStable_loop:
  "set (take n xs) - seen \<subseteq> set (take n (uniqueStable_loop seen [] xs))"
proof (induction xs arbitrary: n seen)
  case Nil
  then show ?case by simp
next
  case (Cons x xs)
  show ?case
  proof (cases n)
    case 0
    then show ?thesis by simp
  next
    case (Suc m)
    show ?thesis
    proof (cases "x \<in> seen")
      case True
      have "set (take m (uniqueStable_loop seen [] xs)) \<subseteq>
            set (take (Suc m) (uniqueStable_loop seen [] xs))"
        by (rule set_take_subset_set_take) simp
      with Cons[of m seen] True Suc show ?thesis
        by (auto simp: uniqueStable_loop_Cons simp del: uniqueStable_loop.simps(2))
    next
      case False
      with Cons[of m "insert x seen"] Suc show ?thesis
        by (auto simp: uniqueStable_loop_Cons simp del: uniqueStable_loop.simps(2))
    qed
  qed
qed

lemma take_uniqueStable: "set (take n xs) \<subseteq> set (take n (uniqueStable xs))"
  using take_uniqueStable_loop[of n xs "{}"] by (simp add: uniqueStable_def)

lemma extractHeadings_line:
  "line \<in> set (splitOn (CHR 0x0A) markdown) \<Longrightarrow> headingMatch line = Some h \<Longrightarrow>
   h \<in> set (extractHeadings markdown)"
  by (force simp: extractHeadings_def)

text \<open>
  C2, as the code has it. The headings are taken from the body as it is parsed, with
  its code: every line of the body that matches the heading pattern gives a heading, and
  that heading is among the raw candidates whenever the cap on the candidates leaves room
  for the title and all headings. (Code is removed for the keywords only.)
\<close>

theorem headings_from_unstripped_body:
  assumes "line \<in> set (splitOn (CHR 0x0A) (content parsed))"
    and "headingMatch line = Some h"
    and "rat_of_nat (length (extractHeadings (content parsed))) + 1 \<le> candidateLimit conf"
  shows "h \<in> set (extractHeadings (content parsed)) \<and>
         h \<in> set (rawCandidatesOf L filePath conf parsed)"
proof -
  let ?hs = "extractHeadings (content parsed)"
  have h: "h \<in> set ?hs" using assms(1,2) by (rule extractHeadings_line)
  define title where "title =
    (case getTitleFromFrontmatter (frontmatterOf parsed) of
       Some t \<Rightarrow> t | None \<Rightarrow> basename L filePath (extname L filePath))"
  define rest where "rest =
    (if isStringArray (map_of (frontmatterOf parsed) ''tags'')
     then strings (map_of (frontmatterOf parsed) ''tags'') else []) @
    topKeywords (stripCodeBlocks (content parsed)) (keywordLimit conf)"
  let ?all = "[title] @ ?hs @ rest"
  have r: "rawCandidatesOf L filePath conf parsed = sliceTo (uniqueStable ?all) (candidateLimit conf)"
    by (simp add: rawCandidatesOf_def Let_def title_def rest_def)
  have c: "0 \<le> candidateLimit conf" using assms(3) by linarith
  have "rat_of_nat (Suc (length ?hs)) \<le> candidateLimit conf" using assms(3) by simp
  then have "of_int (int (Suc (length ?hs))) \<le> candidateLimit conf" by simp
  then have "int (Suc (length ?hs)) \<le> \<lfloor>candidateLimit conf\<rfloor>" by (simp only: le_floor_iff)
  then have k: "Suc (length ?hs) \<le> nat \<lfloor>candidateLimit conf\<rfloor>" by linarith
  have "h \<in> set (take (Suc (length ?hs)) ?all)" using h by simp
  then have "h \<in> set (take (Suc (length ?hs)) (uniqueStable ?all))"
    using take_uniqueStable by blast
  then have "h \<in> set (take (nat \<lfloor>candidateLimit conf\<rfloor>) (uniqueStable ?all))"
    using set_take_subset_set_take[OF k, of "uniqueStable ([title] @ extractHeadings (content parsed) @ rest)"]
    by blast
  then have "h \<in> set (rawCandidatesOf L filePath conf parsed)"
    unfolding r by (simp add: sliceTo_nonneg[OF c])
  with h show ?thesis by simp
qed

text \<open>
  C2, as it is stated, fails: the line \<open># setup deps\<close> of a fenced code block is a heading
  candidate of the document, and would not be one if code were removed first.
\<close>

theorem heading_in_code_counterexample:
  "''setup deps'' \<in> set (extractHeadings
      (''Intro'' @ [CHR 0x0A] @ [CHR 0x60, CHR 0x60, CHR 0x60] @ [CHR 0x0A] @ ''# setup deps'' @
       [CHR 0x0A] @ [CHR 0x60, CHR 0x60, CHR 0x60] @ [CHR 0x0A])) \<and>
   ''setup deps'' \<in> set (rawCandidatesOf noLibs ''post.md'' defaults
      \<lparr>data = None,
       content = ''Intro'' @ [CHR 0x0A] @ [CHR 0x60, CHR 0x60, CHR 0x60] @ [CHR 0x0A] @
         ''# setup deps'' @ [CHR 0x0A] @ [CHR 0x60, CHR 0x60, CHR 0x60] @ [CHR 0x0A]\<rparr>) \<and>
   stripCodeBlocks
      (''Intro'' @ [CHR 0x0A] @ [CHR 0x60, CHR 0x60, CHR 0x60] @ [CHR 0x0A] @ ''# setup deps'' @
       [CHR 0x0A] @ [CHR 0x60, CHR 0x60, CHR 0x60] @ [CHR 0x0A]) = ''Intro'' @ [CHR 0x0A] @ '' '' @ [CHR 0x0A]"
proof -
  have 1: "''setup deps'' \<in> set (extractHeadings
      (''Intro'' @ [CHR 0x0A] @ [CHR 0x60, CHR 0x60, CHR 0x60] @ [CHR 0x0A] @ ''# setup deps'' @
       [CHR 0x0A] @ [CHR 0x60, CHR 0x60, CHR 0x60] @ [CHR 0x0A]))"
    by code_simp
  have 2: "''setup deps'' \<in> set (rawCandidatesOf noLibs ''post.md'' defaults
      \<lparr>data = None,
       content = ''Intro'' @ [CHR 0x0A] @ [CHR 0x60, CHR 0x60, CHR 0x60] @ [CHR 0x0A] @
         ''# setup deps'' @ [CHR 0x0A] @ [CHR 0x60, CHR 0x60, CHR 0x60] @ [CHR 0x0A]\<rparr>)"
    by code_simp
  have 3: "stripCodeBlocks
      (''Intro'' @ [CHR 0x0A] @ [CHR 0x60, CHR 0x60, CHR 0x60] @ [CHR 0x0A] @ ''# setup deps'' @
       [CHR 0x0A] @ [CHR 0x60, CHR 0x60, CHR 0x60] @ [CHR 0x0A]) = ''Intro'' @ [CHR 0x0A] @ '' '' @ [CHR 0x0A]"
    by code_simp
  from 1 2 3 show ?thesis by blast
qed

theorem headings_from_unstripped_body_witness:
  "''setup deps'' \<in> set (rawCandidatesOf noLibs ''post.md'' defaults
      \<lparr>data = None,
       content = [CHR 0x60, CHR 0x60, CHR 0x60] @ [CHR 0x0A] @ ''# setup deps'' @ [CHR 0x0A] @
         [CHR 0x60, CHR 0x60, CHR 0x60]\<rparr>)"
proof -
  let ?p = "\<lparr>data = None,
       content = [CHR 0x60, CHR 0x60, CHR 0x60] @ [CHR 0x0A] @ ''# setup deps'' @ [CHR 0x0A] @
         [CHR 0x60, CHR 0x60, CHR 0x60]\<rparr>"
  have a: "''# setup deps'' \<in> set (splitOn (CHR 0x0A) (content ?p))" by code_simp
  have b: "headingMatch ''# setup deps'' = Some ''setup deps''" by code_simp
  have "extractHeadings (content ?p) = [''setup deps'']" by code_simp
  then have c: "rat_of_nat (length (extractHeadings (content ?p))) + 1 \<le> candidateLimit defaults"
    by (simp add: defaults_def)
  from headings_from_unstripped_body[OF a b c] show ?thesis by simp
qed

subsection \<open>Loading the vocabulary cache\<close>

lemma loadOrCreateCache_fatal:
  assumes "fs p = Denied \<or> (\<exists>raw. fs p = File raw \<and> JSON_parse L raw = None)"
  shows "loadOrCreateCache L files p dry verb fs = (Inl (FailedToReadJson p), fs, L)"
  using assms by (auto simp: loadOrCreateCache_def readJsonFile_def)

lemma loadOrCreateCache_rebuilds:
  assumes "fs p = NoEnt \<or> (\<exists>raw v. fs p = File raw \<and> JSON_parse L raw = Some v \<and> \<not> cacheShape v)"
  shows "loadOrCreateCache L files p dry verb fs =
           (if \<not> dry \<and> \<not> writable L p then (Inl (WriteFailed p), fs, afterScan L fs files)
            else (Inr (cacheFileOf L (map JStr (scanExistingHashtags L fs files))),
                  (if dry then fs
                   else fs(p := File (JSON_stringify L
                          (cacheFileOf L (map JStr (scanExistingHashtags L fs files))) @ [CHR 0x0A]))),
                  afterScan L fs files))"
  using assms
  by (auto simp: loadOrCreateCache_def readJsonFile_def buildCache_def writeJsonFile_def
        writeFile_def Let_def cacheShape_def getProp_def falsy_def)

lemma strings_map_JStr: "strings (Some (JArr (map JStr xs))) = xs"
  by (induction xs) auto

lemma hashtagsOf_cacheFileOf: "hashtagsOf (cacheFileOf L vs) = vs"
  by (simp add: hashtagsOf_def cacheFileOf_def getProp_def)

text \<open>What \<open>loadOrCreateCache\<close> returns has an array of hashtags.\<close>

lemma loadOrCreateCache_array:
  "loadOrCreateCache L files p dry verb fs = (Inr cache, fs', L') \<Longrightarrow>
   \<exists>vs. getProp cache ''hashtags'' = Some (JArr vs)"
  by (auto simp: loadOrCreateCache_def buildCache_def cacheShape_def cacheFileOf_def getProp_def
        Let_def split: sum.splits if_splits option.splits jsval.splits)

lemma uniqueStable_untyped_loop_strings:
  "uniqueStable_untyped_loop (map JStr seen) (map JStr out) (map JStr xs) =
     map JStr (uniqueStable_loop (set seen) out xs)"
proof (induction xs arbitrary: seen out)
  case Nil
  then show ?case by simp
next
  case (Cons x xs)
  have m: "list_ex (sameValueZero (JStr x)) (map JStr seen) = (x \<in> set seen)"
    by (induction seen) auto
  show ?case
    using Cons.IH[of seen out] Cons.IH[of "seen @ [x]" "out @ [x]"]
    by (simp add: m)
qed

lemma uniqueStable_untyped_strings:
  "uniqueStable_untyped (map JStr xs) = map JStr (uniqueStable xs)"
  using uniqueStable_untyped_loop_strings[of "[]" "[]" xs]
  by (simp add: uniqueStable_untyped_def uniqueStable_def)

lemma mergedCacheOf_strings:
  "mergedCacheOf L (map JStr voc) newly =
     Some (map JStr (localeSort L (uniqueStable (voc @ newly))))"
proof -
  have u: "uniqueStable_untyped (map JStr voc @ map JStr newly) =
           map JStr (uniqueStable (voc @ newly))"
    using uniqueStable_untyped_strings[of "voc @ newly"] by simp
  have a: "list_all isString (map JStr (uniqueStable (voc @ newly)))"
    by (simp add: list_all_iff isString_def)
  show ?thesis
    unfolding mergedCacheOf_def Let_def u
    using a by (simp add: strings_map_JStr del: strings.simps)
qed

lemma main_cache_fatal:
  assumes "loadConfig L fs (configFile cfg) = Inr conf"
    and "resolveFiles L cfg conf \<noteq> []"
    and "\<not> cacheRebuild cfg"
    and "fs (cacheFile conf) = Denied \<or>
         (\<exists>raw. fs (cacheFile conf) = File raw \<and> JSON_parse L raw = None)"
  shows "main L cfg fs = (Inl (FailedToReadJson (cacheFile conf)), fs)"
proof -
  have "loadOrCreateCache L (resolveFiles L cfg conf) (cacheFile conf) (dryRun cfg) (verbose cfg) fs =
      (Inl (FailedToReadJson (cacheFile conf)), fs, L)"
    using assms(4) by (rule loadOrCreateCache_fatal)
  then show ?thesis
    using assms(1,2,3) by (simp add: main_def Let_def)
qed

text \<open>
  C3, as the code has it. Take a run that reaches the cache: the configuration loads,
  there are files, no rebuild is asked for. Let \<open>voc\<close> be the hashtags that the scan of
  the documents finds.

  \<^item> A cache file that cannot be read or is not JSON ends the run with the error of
    \<open>readJsonFile\<close>; nothing is processed or written.

  \<^item> A cache file that is absent, or that parses to a value without \<open>version === 1\<close>
    and an array of hashtags, is rebuilt as \<open>voc\<close>. In write mode the rebuilt cache is
    written at once, and when that write fails the run ends with its error; nothing is
    processed.

  \<^item> Otherwise the run is not fatal: every file is processed, in order, with the
    vocabulary \<open>voc\<close>, from the file system that holds the rebuilt cache (in write
    mode) and the parser as the scan left it; the run returns the summary of that
    processing and, in write mode, writes the merged cache if labels were added.
\<close>

theorem cache_load_failure_modes:
  assumes "loadConfig L fs (configFile cfg) = Inr conf"
    and "files = resolveFiles L cfg conf" and "files \<noteq> []"
    and "\<not> cacheRebuild cfg"
    and "p = cacheFile conf"
    and "voc = scanExistingHashtags L fs files"
  shows "(fs p = Denied \<or> (\<exists>raw. fs p = File raw \<and> JSON_parse L raw = None) \<longrightarrow>
            main L cfg fs = (Inl (FailedToReadJson p), fs)) \<and>
         ((fs p = NoEnt \<or>
           (\<exists>raw v. fs p = File raw \<and> JSON_parse L raw = Some v \<and> \<not> cacheShape v)) \<longrightarrow>
            (if \<not> dryRun cfg \<and> \<not> writable L p
             then main L cfg fs = (Inl (WriteFailed p), fs)
             else (case processAll cfg conf (map JStr voc) files
                          (afterScan L fs files,
                           (if dryRun cfg then fs
                            else fs(p := File (JSON_stringify L (cacheFileOf L (map JStr voc))
                                                @ [CHR 0x0A]))),
                           0, 0, []) of
                     (L2, fs2, nChanged, nSkipped, newly) \<Rightarrow>
                       main L cfg fs =
                         (Inr \<lparr>filesProcessed = length files, changedCount = nChanged,
                               skippedCount = nSkipped\<rparr>,
                          if length (localeSort L (uniqueStable (voc @ newly))) \<noteq> length voc \<and>
                             \<not> dryRun cfg
                          then fs2(p := File (JSON_stringify L
                                 (cacheFileOf L (map JStr (localeSort L (uniqueStable (voc @ newly)))))
                                 @ [CHR 0x0A]))
                          else fs2))))"
proof (intro conjI impI)
  assume "fs p = Denied \<or> (\<exists>raw. fs p = File raw \<and> JSON_parse L raw = None)"
  with assms(1,3,4) show "main L cfg fs = (Inl (FailedToReadJson p), fs)"
    unfolding assms(2) assms(5) by (rule main_cache_fatal)
next
  let ?cache = "cacheFileOf L (map JStr voc)"
  let ?fs1 = "if dryRun cfg then fs else fs(p := File (JSON_stringify L ?cache @ [CHR 0x0A]))"
  assume "fs p = NoEnt \<or>
     (\<exists>raw v. fs p = File raw \<and> JSON_parse L raw = Some v \<and> \<not> cacheShape v)"
  then have l: "loadOrCreateCache L files p (dryRun cfg) (verbose cfg) fs =
           (if \<not> dryRun cfg \<and> \<not> writable L p then (Inl (WriteFailed p), fs, afterScan L fs files)
            else (Inr ?cache, ?fs1, afterScan L fs files))"
    unfolding assms(6) by (rule loadOrCreateCache_rebuilds)
  have c: "loadConfig L fs (configFile cfg) = Inr conf" "length (resolveFiles L cfg conf) \<noteq> 0"
      "\<not> cacheRebuild cfg"
    using assms(1,3,4) unfolding assms(2) by simp_all
  show "if \<not> dryRun cfg \<and> \<not> writable L p
        then main L cfg fs = (Inl (WriteFailed p), fs)
        else (case processAll cfg conf (map JStr voc) files (afterScan L fs files, ?fs1, 0, 0, []) of
                (L2, fs2, nChanged, nSkipped, newly) \<Rightarrow>
                  main L cfg fs =
                    (Inr \<lparr>filesProcessed = length files, changedCount = nChanged,
                          skippedCount = nSkipped\<rparr>,
                     if length (localeSort L (uniqueStable (voc @ newly))) \<noteq> length voc \<and>
                        \<not> dryRun cfg
                     then fs2(p := File (JSON_stringify L
                            (cacheFileOf L (map JStr (localeSort L (uniqueStable (voc @ newly)))))
                            @ [CHR 0x0A]))
                     else fs2))"
  proof (cases "\<not> dryRun cfg \<and> \<not> writable L p")
    case True
    with l have "loadOrCreateCache L files p (dryRun cfg) (verbose cfg) fs =
                   (Inl (WriteFailed p), fs, afterScan L fs files)"
      by simp
    then have "main L cfg fs = (Inl (WriteFailed p), fs)"
      using c unfolding assms(2) assms(5)
      by (simp add: main_def Let_def)
    with True show ?thesis by simp
  next
    case False
    with l have l': "loadOrCreateCache L files p (dryRun cfg) (verbose cfg) fs =
                   (Inr ?cache, ?fs1, afterScan L fs files)"
      by simp
    obtain L2 fs2 nChanged nSkipped newly where
      pa: "processAll cfg conf (map JStr voc) files (afterScan L fs files, ?fs1, 0, 0, []) =
             (L2, fs2, nChanged, nSkipped, newly)"
      by (metis prod_cases5)
    have w: "\<not> dryRun cfg \<Longrightarrow> writable L p" using False by blast
    have "main L cfg fs =
            (Inr \<lparr>filesProcessed = length files, changedCount = nChanged,
                  skippedCount = nSkipped\<rparr>,
             if length (localeSort L (uniqueStable (voc @ newly))) \<noteq> length voc \<and> \<not> dryRun cfg
             then fs2(p := File (JSON_stringify L
                    (cacheFileOf L (map JStr (localeSort L (uniqueStable (voc @ newly)))))
                    @ [CHR 0x0A]))
             else fs2)"
      using c w l' pa unfolding assms(2) assms(5)
      by (simp add: main_def Let_def hashtagsOf_cacheFileOf mergedCacheOf_strings
            writeJsonFile_def writeFile_def)
    with False pa show ?thesis by simp
  qed
qed

lemma sample_scan: "scanExistingHashtags sampleLibs sampleFiles [''post.md''] = [''api'']"
  using sample_existing
  by (simp add: scanExistingHashtags_def sampleFiles_def sample_matter existingHashtagsOf_def
        frontmatterOf_def samplePost_def slugifyAll_def sample_slugs uniqueStable_def
        sampleLibs_def noLibs_def)

lemma sample_afterScan: "afterScan sampleLibs sampleFiles [''post.md''] = sampleLibs"
  by (simp add: afterScan_def sampleFiles_def afterMatter_def sample_matter)

lemma sample_mapped_rebuilt:
  "mappedNewOf defaults [JStr ''api'']
     [''intro-to-api-design'', ''apis'', ''about'', ''contracts'', ''need'', ''versioning''] =
   Inr [''intro-to-api-design'', ''apis'', ''about'', ''contracts'', ''need'', ''versioning'']"
  by code_simp

lemma sample_run_rebuilt:
  assumes "fs ''post.md'' = File (textOf samplePost)"
  shows "processFile sampleLibs ''post.md'' writeMode defaults [JStr ''api''] fs =
     (Inr \<lparr>changed = True,
           added = [''intro-to-api-design'', ''apis'', ''about'', ''contracts'', ''need'',
                    ''versioning''],
           final = [''api'', ''intro-to-api-design'', ''apis'', ''about'', ''contracts'', ''need'',
                    ''versioning'']\<rparr>,
      fs(''post.md'' := File (textOf samplePostWritten)))"
proof -
  have d: "\<not> dryRun writeMode" by (simp add: writeMode_def)
  show ?thesis
    unfolding processFile_def
    by (simp add: assms sample_matter sample_raw_candidates sample_generated sample_existing
          sample_mapped_rebuilt d sample_combined addedOf_def sample_newRaw sample_texts_differ
          writeFile_def sample_writable Let_def)
qed

lemma sample_config:
  "loadConfig sampleLibs sampleFiles (configFile writeMode) = Inr defaults"
  "loadConfig sampleLibs sampleBrokenCache (configFile writeMode) = Inr defaults"
  "resolveFiles sampleLibs writeMode defaults = [''post.md'']"
  "\<not> cacheRebuild writeMode"
  by (simp_all add: loadConfig_def readJsonFile_def sampleFiles_def sampleBrokenCache_def
        writeMode_def falsy_def resolveFiles_def defaults_def)

lemma sample_cache_nodes:
  "sampleFiles (cacheFile defaults) = NoEnt"
  "sampleBrokenCache (cacheFile defaults) = File ''{ hashtags: [''"
  "JSON_parse sampleLibs ''{ hashtags: ['' = None"
  by (simp_all add: sampleFiles_def sampleBrokenCache_def defaults_def sampleLibs_def noLibs_def)

lemma locked_config:
  "loadConfig lockedLibs sampleFiles (configFile writeMode) = Inr defaults"
  "resolveFiles lockedLibs writeMode defaults = [''post.md'']"
  "\<not> writable lockedLibs (cacheFile defaults)"
  "\<not> dryRun writeMode"
  by (simp_all add: loadConfig_def readJsonFile_def sampleFiles_def lockedLibs_def
        writeMode_def falsy_def resolveFiles_def defaults_def)

theorem cache_load_failure_modes_witness:
  "main sampleLibs writeMode sampleBrokenCache =
     (Inl (FailedToReadJson (cacheFile defaults)), sampleBrokenCache) \<and>
   main lockedLibs writeMode sampleFiles = (Inl (WriteFailed (cacheFile defaults)), sampleFiles) \<and>
   (\<exists>fs'. main sampleLibs writeMode sampleFiles =
            (Inr \<lparr>filesProcessed = 1, changedCount = 1, skippedCount = 0\<rparr>, fs') \<and>
          fs' ''post.md'' = File (textOf samplePostWritten))"
proof -
  have ne: "[''post.md''] \<noteq> ([] :: string list)" by simp
  have 1: "main sampleLibs writeMode sampleBrokenCache =
     (Inl (FailedToReadJson (cacheFile defaults)), sampleBrokenCache)"
    using cache_load_failure_modes[OF sample_config(2) sample_config(3)[symmetric] ne
        sample_config(4) refl refl] sample_cache_nodes
    by simp
  have 2: "main lockedLibs writeMode sampleFiles =
     (Inl (WriteFailed (cacheFile defaults)), sampleFiles)"
    using cache_load_failure_modes[OF locked_config(1) locked_config(2)[symmetric] ne
        sample_config(4) refl refl] sample_cache_nodes(1) locked_config(3,4)
    by simp
  let ?fs1 = "sampleFiles(cacheFile defaults :=
                File (JSON_stringify sampleLibs (cacheFileOf sampleLibs (map JStr [''api'']))
                      @ [CHR 0x0A]))"
  have q: "?fs1 ''post.md'' = File (textOf samplePost)"
    by (simp add: sampleFiles_def defaults_def)
  have pa: "\<exists>L2. processAll writeMode defaults (map JStr [''api'']) [''post.md'']
              (sampleLibs, ?fs1, 0, 0, []) =
            (L2, ?fs1(''post.md'' := File (textOf samplePostWritten)), 1, 0,
             [''intro-to-api-design'', ''apis'', ''about'', ''contracts'', ''need'', ''versioning''])"
    using sample_run_rebuilt[where fs = "?fs1", OF q] by simp
  have d: "\<not> dryRun writeMode" by (simp add: writeMode_def)
  have 3: "\<exists>fs'. main sampleLibs writeMode sampleFiles =
            (Inr \<lparr>filesProcessed = 1, changedCount = 1, skippedCount = 0\<rparr>, fs') \<and>
          fs' ''post.md'' = File (textOf samplePostWritten)"
    using cache_load_failure_modes[OF sample_config(1) sample_config(3)[symmetric] ne
        sample_config(4) refl refl] sample_cache_nodes(1) pa d
    by (auto simp: sample_scan sample_afterScan sample_writable defaults_def)
  from 1 2 3 show ?thesis by blast
qed

text \<open>
  C3, as it is stated, fails: a cache file that is not JSON ends the run with an error
  before any document is processed (the file system is as it was); and an absent cache
  file is not taken as an empty vocabulary, it is rebuilt from the documents, here to
  the one label \<open>api\<close>.
\<close>

theorem malformed_cache_fatal_counterexample:
  "main sampleLibs writeMode sampleBrokenCache =
     (Inl (FailedToReadJson ''src/scripts/tagger/.hashtags-cache.json''), sampleBrokenCache) \<and>
   fst (loadOrCreateCache sampleLibs [''post.md''] (cacheFile defaults) True False sampleFiles) =
     Inr (JObj [(''version'', JNum 1), (''updatedAt'', JStr []),
                (''hashtags'', JArr [JStr ''api''])])"
proof -
  have ne: "resolveFiles sampleLibs writeMode defaults \<noteq> []"
    by (simp add: sample_config(3))
  have "sampleBrokenCache (cacheFile defaults) = Denied \<or>
     (\<exists>raw. sampleBrokenCache (cacheFile defaults) = File raw \<and> JSON_parse sampleLibs raw = None)"
    using sample_cache_nodes by simp
  from main_cache_fatal[OF sample_config(2) ne sample_config(4) this]
  have 1: "main sampleLibs writeMode sampleBrokenCache =
     (Inl (FailedToReadJson ''src/scripts/tagger/.hashtags-cache.json''), sampleBrokenCache)"
    by (simp add: defaults_def)
  have n: "nowISO sampleLibs = []" by (simp add: sampleLibs_def noLibs_def)
  have "sampleFiles (cacheFile defaults) = NoEnt \<or>
     (\<exists>raw v. sampleFiles (cacheFile defaults) = File raw \<and> JSON_parse sampleLibs raw = Some v \<and>
        \<not> cacheShape v)"
    using sample_cache_nodes(1) by simp
  from loadOrCreateCache_rebuilds[where fs = sampleFiles and p = "cacheFile defaults"
      and L = sampleLibs and files = "[''post.md'']" and dry = True and verb = False, OF this]
  have 2: "fst (loadOrCreateCache sampleLibs [''post.md''] (cacheFile defaults) True False sampleFiles) =
     Inr (JObj [(''version'', JNum 1), (''updatedAt'', JStr []),
                (''hashtags'', JArr [JStr ''api''])])"
    by (simp add: sample_scan n cacheFileOf_def)
  from 1 2 show ?thesis by blast
qed

subsection \<open>The body that is written gives the same candidates\<close>










lemma stripFenced_Cons_nl: "stripFenced (CHR 0x0A # s) = CHR 0x0A # stripFenced s"
  by simp


lemma stripInline_Cons_nl: "stripInline (CHR 0x0A # s) = CHR 0x0A # stripInline s"
  by simp












lemma replaceRuns_Cons_space:
  "P w \<Longrightarrow> replaceRuns P r (w # u) = r # replaceRuns P r (dropWhile P u)"
  by simp












subsection \<open>Labels stay labels\<close>







lemma slugifyAll_id: "list_all isLabel xs \<Longrightarrow> slugifyAll xs = xs"
  by (induction xs) (auto simp: slugifyAll_def isLabel_fixed)

lemma isStringArray_map_JStr: "isStringArray (Some (JArr (map JStr xs)))"
  by (simp add: list_all_iff)

lemma existingHashtagsOf_written:
  assumes "map_of fm ''hashtags'' = Some (JArr (map JStr C))"
    and "list_all isLabel C" and "distinct C"
  shows "existingHashtagsOf fm = C"
  unfolding existingHashtagsOf_def assms(1)
  using assms(2,3)
  by (simp add: isStringArray_map_JStr strings_map_JStr slugifyAll_id uniqueStable_id
        del: isStringArray.simps strings.simps)



subsection \<open>Idempotence\<close>













subsection \<open>The batch at run time\<close>

text \<open>
  A cache file of the right shape is loaded as it is, whatever its entries are. With the
  one entry 5 the run is not fatal, but the document is not processed: mapping its first
  candidate throws a \<open>TypeError\<close>, the document is reported and counted neither as
  changed nor as skipped, and nothing is written.
\<close>

lemma number_cache_run:
  "main numberCacheLibs writeMode numberCacheFiles =
     (Inr \<lparr>filesProcessed = 1, changedCount = 0, skippedCount = 0\<rparr>, numberCacheFiles)"
proof -
  have c: "loadConfig numberCacheLibs numberCacheFiles (configFile writeMode) = Inr defaults"
      "resolveFiles numberCacheLibs writeMode defaults = [''post.md'']"
      "\<not> cacheRebuild writeMode"
    by (simp_all add: loadConfig_def readJsonFile_def sampleFiles_def numberCacheFiles_def
          numberCacheLibs_def writeMode_def falsy_def resolveFiles_def defaults_def)
  have l: "loadOrCreateCache numberCacheLibs [''post.md''] (cacheFile defaults) (dryRun writeMode)
             (verbose writeMode) numberCacheFiles =
           (Inr (JObj [(''version'', JNum 1), (''hashtags'', JArr [JNum 5])]), numberCacheFiles,
            numberCacheLibs)"
    by (simp add: loadOrCreateCache_def readJsonFile_def numberCacheFiles_def numberCacheLibs_def
          cacheShape_def getProp_def)
  have h: "hashtagsOf (JObj [(''version'', JNum 1), (''hashtags'', JArr [JNum 5])]) = [JNum 5]"
    by (simp add: hashtagsOf_def getProp_def)
  have f: "numberCacheFiles ''post.md'' = File (textOf samplePost)"
    by (simp add: numberCacheFiles_def sampleFiles_def defaults_def)
  have m: "matter numberCacheLibs (textOf samplePost) = Some samplePost"
    using sample_matter by (simp add: numberCacheLibs_def)
  have r: "rawCandidatesOf numberCacheLibs ''post.md'' defaults samplePost =
           rawCandidatesOf sampleLibs ''post.md'' defaults samplePost"
    by (simp add: rawCandidatesOf_def numberCacheLibs_def Let_def split: option.splits)
  have t: "mappedNewOf defaults [JNum 5]
             [''intro-to-api-design'', ''apis'', ''about'', ''contracts'', ''need'', ''versioning''] =
           Inl TypeError"
    by code_simp
  have p: "processFile numberCacheLibs ''post.md'' writeMode defaults [JNum 5] numberCacheFiles =
           (Inl TypeError, numberCacheFiles)"
    unfolding processFile_def
    by (simp add: f m r sample_raw_candidates sample_generated t Let_def)
  have g: "mergedCacheOf numberCacheLibs [JNum 5] [] = Some [JNum 5]"
    by (simp add: mergedCacheOf_def uniqueStable_untyped_def isString_def)
  show ?thesis
    unfolding main_def
    by (simp add: c l h p g Let_def)
qed

text \<open>
  Two files of the same text in one run: the first is changed; the parser then answers
  that text with the final list in the metadata, so the second is reported unchanged
  and is not written.
\<close>

lemma same_text_twice:
  "\<exists>L2. processAll writeMode defaults [] [''post.md'', ''twin.md''] (sampleLibs, twinFiles, 0, 0, []) =
     (L2, twinFiles(''post.md'' := File (textOf samplePostWritten)), 1, 1,
      [''intro-to-api-design'', ''apis'', ''about'', ''contracts'', ''need'', ''versioning''])"
proof -
  let ?C = "[''api'', ''intro-to-api-design'', ''apis'', ''about'', ''contracts'', ''need'',
             ''versioning'']"
  let ?fm' = "[(''title'', JStr ''Intro to API Design''),
               (''hashtags'', JArr [JStr ''api'', JStr ''intro-to-api-design'', JStr ''apis'',
                  JStr ''about'', JStr ''contracts'', JStr ''need'', JStr ''versioning''])]"
  let ?parsed' = "samplePost\<lparr>data := Some ?fm'\<rparr>"
  let ?L1 = "withCached sampleLibs (textOf samplePost) ?parsed'"
  let ?fs1 = "twinFiles(''post.md'' := File (textOf samplePostWritten))"
  have d: "denylist defaults = []" "\<not> dryRun writeMode"
    by (simp_all add: defaults_def writeMode_def)
  have f: "twinFiles ''post.md'' = File (textOf samplePost)"
      "twinFiles ''twin.md'' = File (textOf samplePost)"
    by (simp_all add: twinFiles_def)
  have ne: "textOf samplePost \<noteq> []" by (simp add: textOf_def)
  have dp: "data samplePost =
              Some [(''title'', JStr ''Intro to API Design''), (''hashtags'', JArr [JStr ''api''])]"
    by (simp add: samplePost_def)
  have e: "existingHashtagsOf [(''title'', JStr ''Intro to API Design''), (''hashtags'', JArr [JStr ''api''])]
           = [''api'']"
    using sample_existing by (simp add: frontmatterOf_def dp)
  have run1: "processFile sampleLibs ''post.md'' writeMode defaults [] twinFiles =
     (Inr \<lparr>changed = True,
           added = [''intro-to-api-design'', ''apis'', ''about'', ''contracts'', ''need'',
                    ''versioning''],
           final = ?C\<rparr>, ?fs1)"
    unfolding processFile_def
    by (simp add: f sample_matter sample_raw_candidates sample_generated sample_existing
          mappedNewOf_empty d sample_combined addedOf_def sample_newRaw sample_texts_differ
          writeFile_def sample_writable Let_def)
  have after1: "afterProcessFile sampleLibs ''post.md'' defaults [] twinFiles = ?L1"
    unfolding afterProcessFile_def
    by (simp add: f sample_matter dp sample_raw_candidates sample_generated e
          mappedNewOf_empty d sample_combined addedOf_def ne Let_def)
  have m1: "matter ?L1 (textOf samplePost) = Some ?parsed'" by (simp add: withCached_def)
  have fm1: "frontmatterOf ?parsed' = ?fm'" by (simp add: frontmatterOf_def)
  have lC: "list_all isLabel ?C" by code_simp
  have "map_of ?fm' ''hashtags'' = Some (JArr (map JStr ?C))" by simp
  then have e1: "existingHashtagsOf ?fm' = ?C"
    using lC by (rule existingHashtagsOf_written) simp
  have r1: "rawCandidatesOf ?L1 ''twin.md'' defaults ?parsed' =
            [''Intro to API Design'', ''apis'', ''about'', ''contracts'', ''need'', ''versioning'']"
    by code_simp
  have c1: "combinedOf defaults ?C
              [''intro-to-api-design'', ''apis'', ''about'', ''contracts'', ''need'', ''versioning'']
            = ?C"
    by code_simp
  have f2: "?fs1 ''twin.md'' = File (textOf samplePost)" by (simp add: twinFiles_def)
  have e2: "existingHashtagsOf (frontmatterOf ?parsed') = ?C" unfolding fm1 by (rule e1)
  have M2: "mappedNewOf defaults [] (generatedAllOf (rawCandidatesOf ?L1 ''twin.md'' defaults ?parsed'))
            = Inr [''intro-to-api-design'', ''apis'', ''about'', ''contracts'', ''need'', ''versioning'']"
    unfolding r1 sample_generated by (rule mappedNewOf_empty) (rule d)
  have A2: "addedOf (existingHashtagsOf (frontmatterOf ?parsed'))
              (combinedOf defaults (existingHashtagsOf (frontmatterOf ?parsed'))
                 [''intro-to-api-design'', ''apis'', ''about'', ''contracts'', ''need'', ''versioning''])
            = []"
    unfolding e2 c1 by (simp add: addedOf_def)
  have run2: "processFile ?L1 ''twin.md'' writeMode defaults [] ?fs1 =
     (Inr \<lparr>changed = False, added = [], final = ?C\<rparr>, ?fs1)"
    using processFile_unchanged[where fs = "?fs1" and filePath = "''twin.md''" and L = "?L1",
        OF f2 m1 M2 A2]
    unfolding e2 c1 .
  show ?thesis
    by (simp add: run1 after1 run2)
qed

end
